theory Spec2Isabelle
  imports Complex_Main
begin

section \<open>Python values and their formatting\<close>

text \<open>
  The MUFF capture suite is Python 3. Python's unbounded \<open>int\<close> is \<open>int\<close>; a \<open>bytes\<close>
  object and a \<open>str\<close> are lists of 8-bit characters (a \<open>str\<close> is read as Latin-1 code
  points). A Python \<open>float\<close> is read as the rational it denotes: the only floats the
  programs compute with are the LED intensities \<open>0.0\<close> and \<open>1.0\<close>, the step \<open>Z_step\<close> and
  sums of it, and no rounding error of binary floating point is part of the model.

  An uncaught exception, \<open>sys.exit\<close> and a read that never returns are values of
  \<open>error\<close>; a function that can fail returns \<open>error + 'a\<close>.
\<close>

type_synonym bytes = string

datatype error =
    NameError string
  | AssertionError
  | TypeError
  | IndexError
  | AttributeError
  | FileExistsError string
  | SystemExit int
  | Blocked

definition bnd :: "error + 'a \<Rightarrow> ('a \<Rightarrow> error + 'b) \<Rightarrow> error + 'b" where
  "bnd m f = (case m of Inl e \<Rightarrow> Inl e | Inr x \<Rightarrow> f x)"

text \<open>\<open>xs[i] = v\<close> and \<open>xs[i]\<close> on a Python list: a negative index counts from the
  end, an index out of range raises \<open>IndexError\<close>.\<close>

definition py_index :: "nat \<Rightarrow> int \<Rightarrow> nat option" where
  "py_index n i =
     (if 0 \<le> i \<and> i < int n then Some (nat i)
      else if - int n \<le> i \<and> i < 0 then Some (nat (int n + i))
      else None)"

definition store :: "'a list \<Rightarrow> int \<Rightarrow> 'a \<Rightarrow> error + 'a list" where
  "store xs i v =
     (case py_index (length xs) i of
        None \<Rightarrow> Inl IndexError
      | Some j \<Rightarrow> Inr (xs[j := v]))"

definition load :: "'a list \<Rightarrow> int \<Rightarrow> error + 'a" where
  "load xs i =
     (case py_index (length xs) i of
        None \<Rightarrow> Inl IndexError
      | Some j \<Rightarrow> Inr (xs ! j))"

text \<open>The decimal digits of a natural number, and Python's \<open>%d\<close> conversions:
  \<open>fmt_d signed width n\<close> is \<open>"%0<width>d" % n\<close>, with the flag \<open>+\<close> when \<open>signed\<close> holds.
  The width counts the sign.\<close>

definition digit :: "nat \<Rightarrow> char" where
  "digit d = char_of (of_char CHR ''0'' + d)"

fun digits10 :: "nat \<Rightarrow> string" where
  "digits10 n = (if n < 10 then [digit n] else digits10 (n div 10) @ [digit (n mod 10)])"

declare digits10.simps [simp del]

definition fmt_d :: "bool \<Rightarrow> nat \<Rightarrow> int \<Rightarrow> string" where
  "fmt_d signed width n =
     (let sgn = (if n < 0 then ''-'' else if signed then ''+'' else '''');
          ds = digits10 (nat \<bar>n\<bar>)
      in sgn @ replicate (width - (length sgn + length ds)) CHR ''0'' @ ds)"

text \<open>\<open>int(round(x))\<close>: Python 3 rounds a half to the even neighbour.\<close>

definition py_round :: "rat \<Rightarrow> int" where
  "py_round x =
     (let f = \<lfloor>x\<rfloor>; d = x - of_int f
      in if d < 1 / 2 then f else if 1 / 2 < d then f + 1
         else if even f then f else f + 1)"

section \<open>muff\_mainloop.py: the illumination planner\<close>

definition num_LEDs :: nat where
  "num_LEDs = 24"

text \<open>\<open>define_LED_centric_pattern(vals, Lm)\<close> and \<open>define_LED_bridging_pattern(vals, La)\<close>
  update the list in place; the model returns the updated list.\<close>

definition define_LED_centric_pattern :: "rat list \<Rightarrow> int \<Rightarrow> error + rat list" where
  "define_LED_centric_pattern vals Lm =
     (if \<not> (Lm \<ge> 0 \<and> Lm < 12) then Inl AssertionError
      else
        bnd (store vals Lm 1) (\<lambda>vals.
        let La = (Lm + 1) mod 12 in bnd (store vals La 1) (\<lambda>vals.
        let Lb = (Lm + 11) mod 12 in bnd (store vals Lb 1) (\<lambda>vals.
        let Lu = Lm + 12 in bnd (store vals Lu 1) (\<lambda>vals.
        let Lr = (Lm + 4) mod 12 in bnd (store vals Lr 1) (\<lambda>vals.
        let Ls = (Lm + 8) mod 12 in store vals Ls 1))))))"

definition define_LED_bridging_pattern :: "rat list \<Rightarrow> int \<Rightarrow> error + rat list" where
  "define_LED_bridging_pattern vals La =
     (if \<not> (La \<ge> 0 \<and> La < 12) then Inl AssertionError
      else
        bnd (store vals La 1) (\<lambda>vals.
        let Lb = (La + 1) mod 12 in bnd (store vals Lb 1) (\<lambda>vals.
        let Lu = La + 12 in bnd (store vals Lu 1) (\<lambda>vals.
        let Lv = Lb + 12 in bnd (store vals Lv 1) (\<lambda>vals.
        let Lr = (Lb + 4) mod 12 in bnd (store vals Lr 1) (\<lambda>vals.
        let Ls = (La + 8) mod 12 in store vals Ls 1))))))"

text \<open>\<open>define_LED_vals(L, nL)\<close>. In the branch for the bottom tier the source assigns to
  \<open>val[Lx]\<close>, a name that is bound nowhere (the list is \<open>vals\<close>): evaluating the
  assignment target raises \<open>NameError\<close> after \<open>Lx\<close> has been computed.\<close>

definition define_LED_vals :: "int \<Rightarrow> int \<Rightarrow> error + rat list" where
  "define_LED_vals L nL =
     (if \<not> (nL > 0 \<and> nL \<le> int num_LEDs) then Inl AssertionError
      else if \<not> (L \<ge> 0 \<and> L < nL) then Inl AssertionError
      else
        let vals = replicate num_LEDs (0::rat) in
        if num_LEDs \<noteq> 24 then Inl AssertionError
        else if nL > 12 then
          (if L < 12 \<or> nL = 24 then store vals L 1
           else
             let Lx = ((L - 12) * 12 + 6) div (nL - 12) in Inl (NameError ''val''))
        else if nL = 12 then
          bnd (store vals L 1) (\<lambda>vals. store vals (L + 12) 1)
        else if nL = 6 then
          (let Lm = 2 * L in define_LED_centric_pattern vals Lm)
        else if \<not> nL < 12 then Inl AssertionError
        else
          let S = (L * 24 + 12) div nL in
          if \<not> (S \<ge> 0 \<and> S < 23) then Inl AssertionError
          else if S mod 2 = 0 then
            (let Lm = S div 2 in define_LED_centric_pattern vals Lm)
          else
            (let La = (S - 1) div 2 in define_LED_bridging_pattern vals La))"

text \<open>The number of lit LEDs of an illumination vector.\<close>

definition lit :: "rat list \<Rightarrow> nat" where
  "lit vals = length (filter (\<lambda>x. x = 1) vals)"

section \<open>The process and its environment\<close>

text \<open>
  The three I/O objects of \<open>muff_mainloop.py\<close>: the serial port to the Arduino and the two
  named pipes to and from the frame grabber. A Python variable holding one of them or
  \<open>None\<close> is an \<open>option\<close>.
\<close>

datatype serial = Serial
datatype wpipe = M2C
datatype rpipe = C2M

text \<open>
  What the process does to the outside, in order. \<open>Would_send\<close> is the line that
  \<open>send_command\<close> writes to \<open>stderr\<close> in place of the command when there is no serial port.
  Of the other diagnostics on \<open>stderr\<close> the trace keeps the operator prompt, the complaints
  and the final status; progress messages and \<open>time.sleep\<close> are left out.
\<close>

datatype event =
    Serial_write bytes
  | Would_send bytes
  | Stdin_read string
  | Prompt
  | Stderr string
  | M2c_write string
  | M2c_flush
  | M2c_close
  | C2m_read string
  | C2m_close
  | Shell string

text \<open>
  The state of the process and of its environment.
  \<^item> \<open>serial_in\<close>: what the successive calls \<open>sport.read()\<close> return; when the list is
    used up the read never returns (the port is opened without a timeout).
  \<^item> \<open>c2m_in\<close>: what the successive calls \<open>c2mPipe.readline()\<close> return, then end of file.
  \<^item> \<open>m2c_open\<close>: whether writing to \<open>m2cPipe\<close> succeeds.
  \<^item> \<open>dirs\<close>: the directories that exist; \<open>utc_stamp\<close>: the start time as
    \<open>strftime("%Y-%m-%d-%H%M-U")\<close> prints it; \<open>uvc_status\<close>: the exit status \<open>os.system\<close> returns for \<open>uvccapture\<close>.
  \<^item> \<open>Z_curr\<close>, \<open>LED_status\<close>: the two global variables of \<open>muff_mainloop.py\<close>.
  \<^item> \<open>trace\<close>: the events so far.
\<close>

record world =
  serial_in :: "bytes list"
  c2m_in :: "string list"
  m2c_open :: bool
  dirs :: "string list"
  utc_stamp :: string
  uvc_status :: int
  Z_curr :: "rat option"
  LED_status :: "rat option list"
  trace :: "event list"

type_synonym 'a proc = "world \<Rightarrow> (error + 'a) \<times> world"

definition ret :: "'a \<Rightarrow> 'a proc" where
  "ret x w = (Inr x, w)"

definition throw :: "error \<Rightarrow> 'a proc" where
  "throw e w = (Inl e, w)"

definition bindp :: "'a proc \<Rightarrow> ('a \<Rightarrow> 'b proc) \<Rightarrow> 'b proc" where
  "bindp m f w = (case m w of (Inl e, w') \<Rightarrow> (Inl e, w') | (Inr x, w') \<Rightarrow> f x w')"

definition seqp :: "'a proc \<Rightarrow> 'b proc \<Rightarrow> 'b proc" where
  "seqp m n = bindp m (\<lambda>_. n)"

definition lift :: "error + 'a \<Rightarrow> 'a proc" where
  "lift r w = (r, w)"

definition emit :: "event \<Rightarrow> unit proc" where
  "emit ev w = (Inr (), w\<lparr>trace := trace w @ [ev]\<rparr>)"

text \<open>The module constants; none of them is assigned after its definition.\<close>

definition use_uvc :: bool where "use_uvc = False"
definition camera_present :: bool where "camera_present = True"

definition Z_step_min :: rat where "Z_step_min = - (999 / 1000)"
definition Z_step_max :: rat where "Z_step_max = 999 / 1000"
definition Z_range_max :: rat where "Z_range_max = 100"
definition nL_max :: int where "nL_max = int num_LEDs"
definition nV_max :: int where "nV_max = 1"
definition nH_max :: int where "nH_max = 99"

section \<open>muff\_arduino.py\<close>

abbreviation CR :: char where "CR \<equiv> CHR 0x0D"
abbreviation LF :: char where "LF \<equiv> CHR 0x0A"

text \<open>\<open>readchar(sport)\<close>. A read of one byte is returned. On any other read the source
  builds its message with \<open>show_chrs\<close>, a name that is bound nowhere in the module (the
  helper is \<open>show_bytes\<close>): the \<open>NameError\<close> leaves the \<open>while True\<close> loop and the
  function, so the loop body runs once.\<close>

definition readchar :: "serial option \<Rightarrow> bytes proc" where
  "readchar sport w =
     (if sport = None then (Inl AssertionError, w)
      else
        case serial_in w of
          [] \<Rightarrow> (Inl Blocked, w)
        | c # rest \<Rightarrow>
            if length c = 1 then (Inr c, w\<lparr>serial_in := rest\<rparr>)
            else (Inl (NameError ''show_chrs''), w\<lparr>serial_in := rest\<rparr>))"

lemma readchar_shorter:
  "readchar sport w = (Inr c, w') \<Longrightarrow> length (serial_in w') < length (serial_in w)"
  by (auto simp: readchar_def split: if_splits list.splits)

function skip_to_eol_loop :: "serial option \<Rightarrow> unit proc" where
  "skip_to_eol_loop sport w =
     (case readchar sport w of
        (Inl e, w') \<Rightarrow> (Inl e, w')
      | (Inr c, w') \<Rightarrow>
          if c = [CR] \<or> c = [LF] then (Inr (), w') else skip_to_eol_loop sport w')"
  by pat_completeness auto
termination
  by (relation "measure (\<lambda>(sport, w). length (serial_in w))")
     (auto dest: readchar_shorter [OF sym])

declare skip_to_eol_loop.simps [simp del]

definition skip_to_eol :: "serial option \<Rightarrow> unit proc" where
  "skip_to_eol sport w =
     (if sport = None then (Inl AssertionError, w) else skip_to_eol_loop sport w)"

lemma skip_to_eol_loop_shorter:
  "skip_to_eol_loop sport w = (r, w') \<Longrightarrow> length (serial_in w') \<le> length (serial_in w)"
proof (induction sport w rule: skip_to_eol_loop.induct)
  case (1 sport w)
  show ?case
  proof (cases "readchar sport w")
    case (Pair a w1)
    show ?thesis
    proof (cases a)
      case (Inl e)
      with Pair "1.prems" show ?thesis
        by (auto simp: skip_to_eol_loop.simps [of sport w] readchar_def
                 split: if_splits list.splits)
    next
      case (Inr c)
      with Pair have rc: "readchar sport w = (Inr c, w1)" by simp
      show ?thesis
      proof (cases "c = [CR] \<or> c = [LF]")
        case True
        with rc "1.prems" readchar_shorter [OF rc] show ?thesis
          by (auto simp: skip_to_eol_loop.simps [of sport w])
      next
        case False
        with rc "1.prems" have "skip_to_eol_loop sport w1 = (r, w')"
          by (auto simp: skip_to_eol_loop.simps [of sport w])
        with "1.IH" [OF rc [symmetric] refl False] readchar_shorter [OF rc]
        show ?thesis by simp
      qed
    qed
  qed
qed

lemma skip_to_eol_shorter:
  "skip_to_eol sport w = (r, w') \<Longrightarrow> length (serial_in w') \<le> length (serial_in w)"
  by (auto simp: skip_to_eol_def dest: skip_to_eol_loop_shorter split: if_splits)

function read_signif_loop :: "serial option \<Rightarrow> bytes proc" where
  "read_signif_loop sport w =
     (case readchar sport w of
        (Inl e, w') \<Rightarrow> (Inl e, w')
      | (Inr c, w') \<Rightarrow>
          if c = ''#'' then
            (case skip_to_eol sport w' of
               (Inl e, w'') \<Rightarrow> (Inl e, w'')
             | (Inr u, w'') \<Rightarrow> read_signif_loop sport w'')
          else if c \<noteq> '' '' \<and> c \<noteq> [CR] \<and> c \<noteq> [LF] then (Inr c, w')
          else read_signif_loop sport w')"
  by pat_completeness auto
termination
proof (relation "measure (\<lambda>(sport, w). length (serial_in w))")
  show "wf (measure (\<lambda>(sport, w). length (serial_in w)))" by simp
next
  fix sport w x xa y xb ya xc
  assume "(xa, y) = readchar sport w" "xa = Inr xb" and "xb = ''#''"
    and "(ya, xc) = skip_to_eol sport y"
  then show "((sport, xc), sport, w) \<in> measure (\<lambda>(sport, w). length (serial_in w))"
    using readchar_shorter [of sport w xb y] skip_to_eol_shorter [of sport y ya xc]
    by simp
next
  fix sport w x xa y xb
  assume "(xa, y) = readchar sport w" "xa = Inr xb"
  then show "((sport, y), sport, w) \<in> measure (\<lambda>(sport, w). length (serial_in w))"
    using readchar_shorter [of sport w xb y] by simp
qed

declare read_signif_loop.simps [simp del]

definition read_signif :: "serial option \<Rightarrow> bytes proc" where
  "read_signif sport w =
     (if sport = None then (Inl AssertionError, w) else read_signif_loop sport w)"

text \<open>\<open>wait_arduino_OK(sport)\<close>: without a port it returns at once; with one, a
  significant byte other than \<open>0\<close> ends the process by \<open>sys.exit(1)\<close>.\<close>

definition wait_arduino_OK :: "serial option \<Rightarrow> unit proc" where
  "wait_arduino_OK sport =
     (if sport = None then ret ()
      else bindp (read_signif sport) (\<lambda>c.
        if c \<noteq> ''0'' then throw (SystemExit 1) else ret ()))"

definition send_command :: "serial option \<Rightarrow> bytes \<Rightarrow> unit proc" where
  "send_command sport command =
     (if sport = None then emit (Would_send command)
      else emit (Serial_write command))"

definition send_command_and_wait :: "serial option \<Rightarrow> bytes \<Rightarrow> unit proc" where
  "send_command_and_wait sport command =
     seqp (send_command sport command) (wait_arduino_OK sport)"


definition stop_motor :: "serial option \<Rightarrow> unit proc" where
  "stop_motor sport = (let command = ''3'' in send_command_and_wait sport command)"

text \<open>\<open>start_motor(sport, dir, fast)\<close> stops the motor first; a direction other than
  \<open>+1\<close> and \<open>-1\<close> fails the \<open>assert False\<close> after that.\<close>

definition start_motor :: "serial option \<Rightarrow> int \<Rightarrow> bool \<Rightarrow> unit proc" where
  "start_motor sport dir fast =
     seqp (stop_motor sport)
       (if dir = 1 then
          (if fast then send_command_and_wait sport ''6''
           else send_command_and_wait sport ''1'')
        else if dir = - 1 then
          (if fast then send_command_and_wait sport ''7''
           else send_command_and_wait sport ''2'')
        else throw AssertionError)"

definition set_Z_step :: "serial option \<Rightarrow> rat \<Rightarrow> unit proc" where
  "set_Z_step sport Z_step =
     (let istep = py_round (Z_step * 1000) in
      if \<not> (istep \<ge> - 999 \<and> istep \<le> 999) then throw AssertionError
      else
        let command = ''4'' @ fmt_d True 3 istep in
        send_command_and_wait sport command)"

definition move_microscope :: "serial option \<Rightarrow> unit proc" where
  "move_microscope sport = (let command = ''5'' in send_command_and_wait sport command)"

definition switch_all_LEDs :: "serial option \<Rightarrow> rat \<Rightarrow> unit proc" where
  "switch_all_LEDs sport pwr =
     (if \<not> (pwr \<ge> 0 \<and> pwr \<le> 1) then throw AssertionError
      else if pwr = 1 then send_command_and_wait sport ''+@''
      else if pwr = 0 then send_command_and_wait sport ''-@''
      else throw (SystemExit 1))"


definition switch_LED :: "serial option \<Rightarrow> int \<Rightarrow> rat \<Rightarrow> unit proc" where
  "switch_LED sport lix pwr =
     (if \<not> (lix \<ge> 0 \<and> lix < int num_LEDs) then throw AssertionError
      else if \<not> (pwr \<ge> 0 \<and> pwr \<le> 1) then throw AssertionError
      else
        bindp (if pwr = 1 then ret ''+''
               else if pwr = 0 then ret ''-''
               else throw (SystemExit 1)) (\<lambda>opcode.
        let lname = char_of (of_char CHR ''A'' + nat lix) in
        let command = opcode @ [lname] in
        send_command_and_wait sport command))"

section \<open>muff\_mainloop.py: lights, frames and directories\<close>

definition set_LED_status :: "int \<Rightarrow> rat \<Rightarrow> unit proc" where
  "set_LED_status lix pwr w =
     (case store (LED_status w) lix (Some pwr) of
        Inl e \<Rightarrow> (Inl e, w)
      | Inr st \<Rightarrow> (Inr (), w\<lparr>LED_status := st\<rparr>))"

text \<open>\<open>set_light_condition(sport, LED_vals)\<close>. The assertion in the loop reads
  \<open>type(pwr) is float and pwr == 0.0 or pwr == 1.0\<close>; on floats it holds exactly for
  \<open>0.0\<close> and \<open>1.0\<close>.\<close>

fun set_light_loop :: "serial option \<Rightarrow> rat list \<Rightarrow> nat list \<Rightarrow> unit proc" where
  "set_light_loop sport LED_vals [] = ret ()"
| "set_light_loop sport LED_vals (lix # rest) =
     bindp (lift (load LED_vals (int lix))) (\<lambda>pwr.
       if \<not> (pwr = 0 \<or> pwr = 1) then throw AssertionError
       else
         bindp (\<lambda>w. (load (LED_status w) (int lix), w)) (\<lambda>cur.
         seqp (if Some pwr \<noteq> cur then
                 seqp (switch_LED sport (int lix) pwr) (set_LED_status (int lix) pwr)
               else ret ())
              (set_light_loop sport LED_vals rest)))"

definition set_light_condition :: "serial option \<Rightarrow> rat list \<Rightarrow> unit proc" where
  "set_light_condition sport LED_vals =
     (if length LED_vals \<noteq> num_LEDs then throw AssertionError
      else set_light_loop sport LED_vals [0..<num_LEDs])"

fun lights_off_loop :: "nat list \<Rightarrow> unit proc" where
  "lights_off_loop [] = ret ()"
| "lights_off_loop (lix # rest) = seqp (set_LED_status (int lix) 0) (lights_off_loop rest)"

definition switch_all_lights_off :: "serial option \<Rightarrow> unit proc" where
  "switch_all_lights_off sport =
     seqp (switch_all_LEDs sport 0) (lights_off_loop [0..<num_LEDs])"



definition set_view_direction :: "serial option \<Rightarrow> int \<Rightarrow> int \<Rightarrow> unit proc" where
  "set_view_direction sport V nV =
     (if \<not> nV = 1 then throw AssertionError
      else if \<not> (V \<ge> 0 \<and> V < nV) then throw AssertionError
      else ret ())"

definition make_subdir_name :: "string \<Rightarrow> int \<Rightarrow> int \<Rightarrow> string" where
  "make_subdir_name topdir L V =
     topdir @ ''/L_'' @ fmt_d False 2 L @ ''/V_'' @ fmt_d False 2 V @ ''/raw''"

definition make_frame_filename :: "string \<Rightarrow> int \<Rightarrow> int \<Rightarrow> int \<Rightarrow> string" where
  "make_frame_filename topdir L V H =
     (let subdir = make_subdir_name topdir L V in
      subdir @ ''/frame_'' @ fmt_d False 5 H @ ''.jpg'')"

text \<open>\<open>os.makedirs(path, exist_ok=False)\<close>: the directory must not exist; the
  directories above it are made as needed.\<close>

definition ancestors :: "string \<Rightarrow> string list" where
  "ancestors path = [take i path. i \<leftarrow> [1..<length path], path ! i = CHR ''/'']"

definition makedirs :: "string \<Rightarrow> unit proc" where
  "makedirs path w =
     (if path \<in> set (dirs w) then (Inl (FileExistsError path), w)
      else (Inr (), w\<lparr>dirs := dirs w @ ancestors path @ [path]\<rparr>))"

fun create_subdirs :: "string \<Rightarrow> (nat \<times> nat) list \<Rightarrow> unit proc" where
  "create_subdirs topdir [] = ret ()"
| "create_subdirs topdir ((L, V) # rest) =
     (let subdir = make_subdir_name topdir (int L) (int V) in
      seqp (makedirs subdir) (create_subdirs topdir rest))"

definition create_directories :: "int \<Rightarrow> int \<Rightarrow> string proc" where
  "create_directories nL nV =
     (if \<not> (nL > 0 \<and> nL \<le> 99 \<and> nL \<le> nL_max) then throw AssertionError
      else if \<not> (nV > 0 \<and> nV \<le> 99 \<and> nV \<le> nV_max) then throw AssertionError
      else
        bindp (\<lambda>w. (Inr (utc_stamp w), w)) (\<lambda>tdx.
        let topdir = ''muff_scans/'' @ tdx in
        seqp (makedirs topdir)
       (seqp (create_subdirs topdir [(L, V). L \<leftarrow> [0..<nat nL], V \<leftarrow> [0..<nat nV]])
             (ret topdir))))"

definition capture_frame_uvc :: "string \<Rightarrow> bool proc" where
  "capture_frame_uvc fname =
     (if \<not> camera_present then ret True
      else
        let command = ''uvccapture -S40 -C30 -G80 -B20 -x2560 -y2048 -o'' @ [CHR 0x27]
                        @ fname @ [CHR 0x27] @ '' -v'' in
        bindp (\<lambda>w. (Inr (uvc_status w), w\<lparr>trace := trace w @ [Shell command]\<rparr>))
          (\<lambda>res.
        if res \<noteq> 0 then ret False else ret True))"

text \<open>\<open>capture_frame_camview(m2cPipe, c2mPipe, fname)\<close>. The three calls on \<open>m2cPipe\<close>
  stand in a \<open>try\<close> whose handler returns \<open>False\<close>: so does a pipe that is \<open>None\<close> or
  broken. The reply is read outside the \<open>try\<close>.\<close>

definition capture_frame_camview :: "wpipe option \<Rightarrow> rpipe option \<Rightarrow> string \<Rightarrow> bool proc" where
  "capture_frame_camview m2cPipe c2mPipe fname =
     (let command = ''G '' @ fname in
      if \<not> camera_present then ret True
      else
        bindp (\<lambda>w.
          if m2cPipe = None \<or> \<not> m2c_open w then (Inr False, w)
          else (Inr True,
                w\<lparr>trace := trace w @ [M2c_write command, M2c_write [LF], M2c_flush]\<rparr>))
          (\<lambda>sent.
        if \<not> sent then
          seqp (emit (Stderr (''** [muff_mainloop:] command to {muff_camview.py} could not be sent''
                              @ [LF])))
               (ret False)
        else
          bindp (\<lambda>w.
            if c2mPipe = None then (Inl AttributeError, w)
            else
              case c2m_in w of
                [] \<Rightarrow> (Inr [], w\<lparr>trace := trace w @ [C2m_read []]\<rparr>)
              | s # rest \<Rightarrow> (Inr s, w\<lparr>c2m_in := rest, trace := trace w @ [C2m_read s]\<rparr>))
            (\<lambda>s.
          if s = [] then ret False
          else if s \<noteq> ''ok'' @ [LF] then ret False
          else ret True)))"

definition capture_frame ::
  "wpipe option \<Rightarrow> rpipe option \<Rightarrow> string \<Rightarrow> int \<Rightarrow> int \<Rightarrow> int \<Rightarrow> bool proc" where
  "capture_frame m2cPipe c2mPipe topdir L V H =
     (let fname = make_frame_filename topdir L V H in
      if use_uvc then capture_frame_uvc fname
      else capture_frame_camview m2cPipe c2mPipe fname)"

section \<open>muff\_mainloop.py: the capture sequence\<close>

text \<open>The three nested \<open>for\<close> loops of \<open>capture_image_set\<close>, innermost first. Each returns
  \<open>False\<close> when the function has returned \<open>False\<close> from inside it, and \<open>True\<close> when the
  loop has run to its end.\<close>

fun capture_L_loop ::
  "serial option \<Rightarrow> wpipe option \<Rightarrow> rpipe option \<Rightarrow> string \<Rightarrow> int \<Rightarrow> int \<Rightarrow> int \<Rightarrow> nat list
     \<Rightarrow> bool proc" where
  "capture_L_loop sport m2cPipe c2mPipe topdir nL V H [] = ret True"
| "capture_L_loop sport m2cPipe c2mPipe topdir nL V H (L # rest) =
     bindp (lift (define_LED_vals (int L) nL)) (\<lambda>LED_vals.
     seqp (set_light_condition sport LED_vals)
    (bindp (capture_frame m2cPipe c2mPipe topdir (int L) V H) (\<lambda>ok.
     seqp (switch_all_lights_off sport)
          (if \<not> ok then
             seqp (emit (Stderr (''** [muff_mainloop:] frame capture failed'' @ [LF])))
                  (ret False)
           else capture_L_loop sport m2cPipe c2mPipe topdir nL V H rest))))"

fun capture_V_loop ::
  "serial option \<Rightarrow> wpipe option \<Rightarrow> rpipe option \<Rightarrow> string \<Rightarrow> int \<Rightarrow> int \<Rightarrow> int \<Rightarrow> nat list
     \<Rightarrow> bool proc" where
  "capture_V_loop sport m2cPipe c2mPipe topdir nL nV H [] = ret True"
| "capture_V_loop sport m2cPipe c2mPipe topdir nL nV H (V # rest) =
     seqp (if nV > 1 then set_view_direction sport (int V) nV else ret ())
    (bindp (capture_L_loop sport m2cPipe c2mPipe topdir nL (int V) H [0..<nat nL]) (\<lambda>done.
       if \<not> done then ret False
       else capture_V_loop sport m2cPipe c2mPipe topdir nL nV H rest))"

definition advance_Z_curr :: "rat \<Rightarrow> unit proc" where
  "advance_Z_curr Z_step w =
     (case Z_curr w of
        None \<Rightarrow> (Inl TypeError, w)
      | Some z \<Rightarrow> (Inr (), w\<lparr>Z_curr := Some (z + Z_step)\<rparr>))"

fun capture_H_loop ::
  "serial option \<Rightarrow> wpipe option \<Rightarrow> rpipe option \<Rightarrow> string \<Rightarrow> int \<Rightarrow> int \<Rightarrow> rat \<Rightarrow> nat list
     \<Rightarrow> bool proc" where
  "capture_H_loop sport m2cPipe c2mPipe topdir nL nV Z_step [] = ret True"
| "capture_H_loop sport m2cPipe c2mPipe topdir nL nV Z_step (H # rest) =
     seqp (if H > 0 then seqp (move_microscope sport) (advance_Z_curr Z_step) else ret ())
    (bindp (capture_V_loop sport m2cPipe c2mPipe topdir nL nV (int H) [0..<nat nV]) (\<lambda>done.
       if \<not> done then ret False
       else capture_H_loop sport m2cPipe c2mPipe topdir nL nV Z_step rest))"

definition capture_image_set ::
  "serial option \<Rightarrow> wpipe option \<Rightarrow> rpipe option \<Rightarrow> int \<Rightarrow> int \<Rightarrow> int \<Rightarrow> rat \<Rightarrow> bool proc" where
  "capture_image_set sport m2cPipe c2mPipe nL nV nH Z_step =
     (if \<not> (nL > 0 \<and> nL \<le> nL_max) then throw AssertionError
      else if \<not> (nV > 0 \<and> nV \<le> nV_max) then throw AssertionError
      else if \<not> (nH > 0 \<and> nH \<le> nH_max) then throw AssertionError
      else if \<not> (Z_step \<ge> Z_step_min \<and> Z_step \<le> Z_step_max) then throw AssertionError
      else if \<not> (of_int nH * Z_step \<le> Z_range_max + 1 / 10000) then throw AssertionError
      else
        bindp (create_directories nL nV) (\<lambda>topdir.
        capture_H_loop sport m2cPipe c2mPipe topdir nL nV Z_step [0..<nat nH]))"

section \<open>muff\_mainloop.py: manual positioning\<close>

text \<open>\<open>str.strip()\<close> and \<open>str.lower()\<close> on Latin-1 code points.\<close>

definition isspace :: "char \<Rightarrow> bool" where
  "isspace c \<longleftrightarrow> c \<in> set [CHR 0x09, CHR 0x0A, CHR 0x0B, CHR 0x0C, CHR 0x0D, CHR 0x1C,
                            CHR 0x1D, CHR 0x1E, CHR 0x1F, CHR 0x20, CHR 0x85, CHR 0xA0]"

definition strip :: "string \<Rightarrow> string" where
  "strip s = rev (dropWhile isspace (rev (dropWhile isspace s)))"

definition lower_char :: "char \<Rightarrow> char" where
  "lower_char c =
     (let n = (of_char c :: nat) in
      if (65 \<le> n \<and> n \<le> 90) \<or> (192 \<le> n \<and> n \<le> 222 \<and> n \<noteq> 215) then char_of (n + 32)
      else c)"

definition lower :: "string \<Rightarrow> string" where
  "lower s = map lower_char s"

definition show_chars :: "string \<Rightarrow> bool \<Rightarrow> string" where
  "show_chars s blanks =
     concat (map (\<lambda>c.
       if (c = CHR '' '' \<and> blanks) \<or> (of_char c :: nat) < of_char CHR '' ''
          \<or> (of_char c :: nat) > of_char CHR ''~''
          \<or> c \<in> set [CHR 0x27, CHR 0x22, CHR ''['', CHR '']'', CHR ''('', CHR '')'']
       then ''[chr('' @ fmt_d False 3 (int (of_char c)) @ '')]''
       else [c]) s)"

text \<open>The \<open>while True\<close> loop of \<open>place_camera_for_first_image\<close>, by recursion on the lines
  that \<open>stdin.readline()\<close> is still to return; after the last of them it returns the
  empty string, the end of file. The statement after the loop is never reached.\<close>

fun place_loop :: "serial option \<Rightarrow> string list \<Rightarrow> bool proc" where
  "place_loop sport [] =
     seqp (emit Prompt)
    (seqp (emit (Stdin_read []))
    (seqp (stop_motor sport) (ret False)))"
| "place_loop sport (s # rest) =
     seqp (emit Prompt)
    (seqp (emit (Stdin_read s))
    (if s = [] then seqp (stop_motor sport) (ret False)
     else
       let s = strip s in
       if lower s = ''ok'' then
         seqp (stop_motor sport)
        (seqp (\<lambda>w. (Inr (), w\<lparr>Z_curr := Some 0\<rparr>)) (ret True))
       else if lower s = ''abort'' \<or> lower s = ''q'' then
         seqp (stop_motor sport) (ret False)
       else
         seqp (if s = ''u'' then start_motor sport 1 False
               else if s = ''d'' then start_motor sport (- 1) False
               else if s = ''U'' then start_motor sport 1 True
               else if s = ''D'' then start_motor sport (- 1) True
               else if lower s = ''s'' then stop_motor sport
               else if s = [] then ret ()
               else emit (Stderr (''** unrecognized command '' @ [CHR 0x27] @ show_chars s True
                                   @ [CHR 0x27, LF])))
              (place_loop sport rest)))"

definition manual_Lval :: "rat list" where
  "manual_Lval = fold (\<lambda>index Lval. Lval[index := 1]) [0, 3, 6, 9] (replicate num_LEDs 0)"

definition place_camera_for_first_image :: "serial option \<Rightarrow> string list \<Rightarrow> bool proc" where
  "place_camera_for_first_image sport lines =
     (let Lval = manual_Lval in
      seqp (set_light_condition sport Lval) (place_loop sport lines))"

section \<open>muff\_mainloop.py: the main program\<close>




section \<open>A concrete environment\<close>

text \<open>The state in which \<open>muff_mainloop.py\<close> starts (\<open>Z_curr = None\<close>,
  \<open>LED_status = [None] * num_LEDs\<close>), with an empty directory tree, a frame grabber that
  listens, and nothing yet to read from either side.\<close>

definition world0 :: world where
  "world0 =
     \<lparr>serial_in = [], c2m_in = [], m2c_open = True, dirs = [],
      utc_stamp = ''2018-09-04-1849-U'', uvc_status = 0,
      Z_curr = None, LED_status = replicate num_LEDs None, trace = []\<rparr>"

text \<open>The commands given to the Arduino, sent or (without a port) only logged; the text
  written to the frame grabber; the number of its replies that were the acknowledgement.\<close>

fun issued :: "event list \<Rightarrow> bytes list" where
  "issued [] = []"
| "issued (Serial_write c # es) = c # issued es"
| "issued (Would_send c # es) = c # issued es"
| "issued (e # es) = issued es"

fun m2c_text :: "event list \<Rightarrow> string" where
  "m2c_text [] = []"
| "m2c_text (M2c_write s # es) = s @ m2c_text es"
| "m2c_text (e # es) = m2c_text es"


section \<open>Notions the properties are stated with\<close>

text \<open>A serial line that delivers the bytes \<open>bs\<close> one per read.\<close>

definition bytewise :: "bytes \<Rightarrow> bytes list" where
  "bytewise bs = map (\<lambda>c. [c]) bs"

text \<open>The result token of a reply as the specification words it: space, CR and LF are
  skipped; \<open>#\<close> opens a comment, dropped up to and including the next CR or LF; any other
  byte is the token. The value is the token with the bytes that follow it, or \<open>None\<close>
  when the reply holds no token.\<close>

function spec_result_token :: "string \<Rightarrow> (char \<times> string) option" where
  "spec_result_token [] = None"
| "spec_result_token (c # cs) =
     (if c = CHR ''#'' then
        (case dropWhile (\<lambda>x. x \<noteq> CR \<and> x \<noteq> LF) cs of
           [] \<Rightarrow> None
         | e # rest \<Rightarrow> spec_result_token rest)
      else if c = CHR '' '' \<or> c = CR \<or> c = LF then spec_result_token cs
      else Some (c, cs))"
  by pat_completeness auto
termination
proof (relation "measure length")
  show "wf (measure length)" by simp
next
  fix c :: char and cs x21 x22
  assume "dropWhile (\<lambda>x. x \<noteq> CR \<and> x \<noteq> LF) cs = x21 # x22"
  then have "length (x21 # x22) \<le> length cs"
    using length_dropWhile_le [of "\<lambda>x. x \<noteq> CR \<and> x \<noteq> LF" cs] by simp
  then show "(x22, c # cs) \<in> measure length" by simp
next
  fix c :: char and cs
  show "(cs, c # cs) \<in> measure length" by simp
qed

text \<open>The command that switches LED \<open>lix\<close> to intensity \<open>pwr\<close>, and the commands that take
  the cached status \<open>st\<close> to the vector \<open>v\<close> over the indices \<open>ixs\<close>: one for each entry
  that differs.\<close>

definition led_command :: "nat \<Rightarrow> rat \<Rightarrow> bytes" where
  "led_command lix pwr = (if pwr = 1 then ''+'' else ''-'') @ [char_of (of_char CHR ''A'' + lix)]"

definition led_changes :: "rat option list \<Rightarrow> rat list \<Rightarrow> nat list \<Rightarrow> bytes list" where
  "led_changes st v ixs = [led_command i (v ! i). i \<leftarrow> ixs, st ! i \<noteq> Some (v ! i)]"

definition cmd_event :: "serial option \<Rightarrow> bytes \<Rightarrow> event" where
  "cmd_event sport c = (if sport = None then Would_send c else Serial_write c)"

text \<open>The complaint about an operator line that is no command.\<close>

definition complaint :: "string \<Rightarrow> event" where
  "complaint s = Stderr (''** unrecognized command '' @ [CHR 0x27] @ show_chars s True @ [CHR 0x27, LF])"

text \<open>The vector of 24 intensities in which exactly the LEDs \<open>ixs\<close> are lit.\<close>

definition lit_vector :: "nat list \<Rightarrow> rat list" where
  "lit_vector ixs = map (\<lambda>i. if i \<in> set ixs then 1 else 0) [0..<24]"

text \<open>A state as manual positioning leaves it (\<open>Z_curr = 0.0\<close>, the four LEDs of the
  positioning light on), with a frame grabber that acknowledges two requests.\<close>

definition world_positioned :: world where
  "world_positioned =
     world0\<lparr>c2m_in := [''ok'' @ [LF], ''ok'' @ [LF]],
            Z_curr := Some 0, LED_status := map Some manual_Lval\<rparr>"






text \<open>An illumination vector as the planner promises it: 24 entries, each \<open>0.0\<close> or
  \<open>1.0\<close>, \<open>k\<close> of them lit.\<close>

definition good_vector :: "nat \<Rightarrow> error + rat list \<Rightarrow> bool" where
  "good_vector k r =
     (case r of Inl e \<Rightarrow> False
      | Inr v \<Rightarrow> length v = 24 \<and> lit v = k \<and> (\<forall>x\<in>set v. x = 0 \<or> x = 1))"

section \<open>Properties of the illumination planner\<close>

lemma slot_upper:
  fixes L nL :: int
  assumes a: "0 < nL" "nL < 12" "0 \<le> L" "L < nL"
  shows "(L * 24 + 12) div nL < 23"
proof -
  from a have "L * 24 + 12 + (- 23) * nL < 0" by arith
  with a have "(L * 24 + 12 + (- 23) * nL) div nL < 0"
    by (simp only: pos_imp_zdiv_neg_iff)
  moreover have "(L * 24 + 12 + (- 23) * nL) div nL = - 23 + (L * 24 + 12) div nL"
    using a by (simp only: div_mult_self1 [of nL "L * 24 + 12" "- 23"])
  ultimately show ?thesis by linarith
qed

lemma slot_lower: "0 < nL \<Longrightarrow> 0 \<le> L \<Longrightarrow> 0 \<le> (L * 24 + 12) div (nL::int)"
  by (simp add: pos_imp_zdiv_nonneg_iff)

lemma centric_all:
  "\<forall>Lm\<in>set [0..11]. good_vector 6 (define_LED_centric_pattern (replicate 24 0) Lm)"
  by code_simp

lemma bridging_all:
  "\<forall>La\<in>set [0..11]. good_vector 6 (define_LED_bridging_pattern (replicate 24 0) La)"
  by code_simp

lemma centric_six:
  assumes "0 \<le> Lm" "Lm < 12"
  shows "good_vector 6 (define_LED_centric_pattern (replicate 24 0) Lm)"
  using assms centric_all by simp

lemma bridging_six:
  assumes "0 \<le> La" "La < 12"
  shows "good_vector 6 (define_LED_bridging_pattern (replicate 24 0) La)"
  using assms bridging_all by simp

lemma define_LED_vals_low:
  assumes "0 < nL" "nL < 12" "nL \<noteq> 6" "0 \<le> L" "L < nL"
  shows "define_LED_vals L nL =
           (if ((L * 24 + 12) div nL) mod 2 = 0
            then define_LED_centric_pattern (replicate 24 0) (((L * 24 + 12) div nL) div 2)
            else define_LED_bridging_pattern (replicate 24 0) (((L * 24 + 12) div nL - 1) div 2))"
  using assms slot_upper [of nL L] slot_lower [of nL L]
  by (simp add: define_LED_vals_def num_LEDs_def Let_def)

text \<open>
  Claim C10. For \<open>nL\<close> in 1..11 other than 6 and \<open>L\<close> in 0..nL-1, the azimuth slot
  \<open>S = (L*24 + 12) // nL\<close> lies in 0..22, the centre index derived from it
  (\<open>S // 2\<close> for an even slot, \<open>(S - 1) // 2\<close> for an odd one) lies in 0..11, the planner
  hands exactly that index to the centric or the bridging pattern, and no assertion of
  the planner or of the pattern helpers fails: the call returns a vector.
\<close>

theorem azimuth_slot_in_range:
  assumes "1 \<le> nL" "nL \<le> 11" "nL \<noteq> 6" "0 \<le> L" "L < nL"
  shows "let S = (L * 24 + 12) div nL;
             c = (if S mod 2 = 0 then S div 2 else (S - 1) div 2)
         in 0 \<le> S \<and> S < 24 \<and> S < 23 \<and> 0 \<le> c \<and> c < 12
            \<and> define_LED_vals L nL =
                (if S mod 2 = 0 then define_LED_centric_pattern (replicate 24 0) c
                 else define_LED_bridging_pattern (replicate 24 0) c)
            \<and> (\<exists>vals. define_LED_vals L nL = Inr vals)"
proof -
  define S where "S = (L * 24 + 12) div nL"
  define c where "c = (if S mod 2 = 0 then S div 2 else (S - 1) div 2)"
  have S: "0 \<le> S" "S < 23"
    using assms slot_upper [of nL L] slot_lower [of nL L] by (simp_all add: S_def)
  have "0 \<le> c \<and> c < 12"
  proof (cases "S mod 2 = 0")
    case True
    with S show ?thesis by (simp add: c_def)
  next
    case False
    with S have "0 \<le> (S - 1) div 2 \<and> (S - 1) div 2 < 12" by presburger
    with False show ?thesis by (simp add: c_def)
  qed
  then have c: "0 \<le> c" "c < 12" by simp_all
  have eq: "define_LED_vals L nL =
              (if S mod 2 = 0 then define_LED_centric_pattern (replicate 24 0) c
               else define_LED_bridging_pattern (replicate 24 0) c)"
    using assms define_LED_vals_low [of nL L] by (simp add: S_def c_def)
  have "\<exists>vals. define_LED_vals L nL = Inr vals"
    using centric_six [OF c] bridging_six [OF c]
    by (auto simp: eq good_vector_def split: sum.splits)
  with S c eq show ?thesis
    unfolding Let_def S_def [symmetric] c_def [symmetric] by simp
qed

theorem azimuth_slot_in_range_witness:
  "let S = (10 * 24 + 12) div 11;
       c = (if S mod 2 = 0 then S div 2 else (S - 1) div 2)
   in 0 \<le> S \<and> S < 24 \<and> S < 23 \<and> 0 \<le> c \<and> c < 12
      \<and> define_LED_vals 10 11 =
          (if S mod 2 = 0 then define_LED_centric_pattern (replicate 24 0) c
           else define_LED_bridging_pattern (replicate 24 0) c)
      \<and> (\<exists>vals. define_LED_vals 10 11 = Inr vals)"
  by (rule azimuth_slot_in_range) simp_all

text \<open>Where the planner returns, it returns a vector of the promised shape: one lit LED
  for more than 12 conditions, two for 12, six for fewer.\<close>

lemma planner_all:
  "\<forall>nL\<in>set [1..24]. \<forall>L\<in>set [0..nL - 1].
     (nL \<le> 12 \<or> nL = 24 \<or> L < 12) \<longrightarrow>
     good_vector (if nL > 12 then 1 else if nL = 12 then 2 else 6) (define_LED_vals L nL)"
  by code_simp

lemma define_LED_vals_counts:
  assumes "1 \<le> nL" "nL \<le> 24" "0 \<le> L" "L < nL" "nL \<le> 12 \<or> nL = 24 \<or> L < 12"
  shows "good_vector (if nL > 12 then 1 else if nL = 12 then 2 else 6) (define_LED_vals L nL)"
proof -
  from assms have "nL \<in> set [1..24]" "L \<in> set [0..nL - 1]" by simp_all
  with planner_all assms(5) show ?thesis by blast
qed

text \<open>
  Claim C1. For \<open>nL\<close> in 13..23 and \<open>L\<close> in 12..nL-1 the planner is to return the vector
  in which LED \<open>Lx + 12\<close> alone is lit. The code does not: in that branch it assigns to
  the unbound name \<open>val\<close>, so every such call raises \<open>NameError\<close> and returns no vector.
\<close>

theorem bottom_tier_raises:
  assumes "13 \<le> nL" "nL \<le> 23" "12 \<le> L" "L < nL"
  shows "define_LED_vals L nL = Inl (NameError ''val'')"
  using assms by (simp add: define_LED_vals_def num_LEDs_def Let_def)

theorem bottom_tier_raises_witness:
  "define_LED_vals 12 13 = Inl (NameError ''val'')
     \<and> define_LED_vals 22 23 = Inl (NameError ''val'')"
  using bottom_tier_raises [of 13 12] bottom_tier_raises [of 23 22] by simp

text \<open>
  Claim C7. For every \<open>nL\<close> in 1..24 and \<open>L\<close> in 0..nL-1 the planner is to return a
  vector of 24 entries in \<open>{0.0, 1.0}\<close> with 1, 2 or 6 of them lit. The code does not for
  \<open>nL = 20\<close>, \<open>L = 15\<close>: the call raises \<open>NameError\<close>, so it is no vector of any shape.
\<close>

theorem define_LED_vals_15_of_20:
  "define_LED_vals 15 20 = Inl (NameError ''val'')
     \<and> (\<nexists>vals. define_LED_vals 15 20 = Inr vals)"
  by (simp add: define_LED_vals_def num_LEDs_def)

section \<open>Properties of the serial protocol\<close>

lemmas proc_defs = ret_def throw_def bindp_def seqp_def lift_def emit_def

text \<open>
  Claim C4. \<open>set_Z_step\<close> is to fail when the step rounds outside \<open>[-0.999, 0.999]\<close> and
  otherwise to send \<open>4\<close>, the sign and the magnitude in microns padded with zeros to three
  digits. It fails for 1.234 and sends \<open>4+500\<close> for 0.5, as claimed; but the format
  \<open>%+03d\<close> counts the sign in its width of three, so a magnitude below 100 microns is
  padded to two digits only: 0.05 mm goes out as \<open>4+50\<close>, 0.005 mm as \<open>4+05\<close> and
  -0.007 mm as \<open>4-07\<close>, against the source's own remark that the Arduino expects the
  sign and three digits.
\<close>

theorem set_Z_step_payloads:
  "set_Z_step None (1 / 20) w = (Inr (), w\<lparr>trace := trace w @ [Would_send ''4+50'']\<rparr>)
   \<and> set_Z_step None (5 / 1000) w = (Inr (), w\<lparr>trace := trace w @ [Would_send ''4+05'']\<rparr>)
   \<and> set_Z_step None (- (7 / 1000)) w = (Inr (), w\<lparr>trace := trace w @ [Would_send ''4-07'']\<rparr>)
   \<and> set_Z_step None (1 / 2) w = (Inr (), w\<lparr>trace := trace w @ [Would_send ''4+500'']\<rparr>)
   \<and> set_Z_step None (1234 / 1000) w = (Inl AssertionError, w)"
proof -
  have r: "py_round 50 = 50" "py_round 5 = 5" "py_round (- 7) = - 7" "py_round 500 = 500"
    "py_round 1234 = 1234"
    by (simp_all add: py_round_def)
  have f: "fmt_d True 3 50 = ''+50''" "fmt_d True 3 5 = ''+05''" "fmt_d True 3 (- 7) = ''-07''"
    "fmt_d True 3 500 = ''+500''"
    by code_simp+
  show ?thesis
    by (simp add: set_Z_step_def Let_def r f send_command_and_wait_def send_command_def
        wait_arduino_OK_def proc_defs)
qed

lemma readchar_bytewise:
  "readchar (Some Serial) (w\<lparr>serial_in := bytewise (c # cs)\<rparr>)
     = (Inr [c], w\<lparr>serial_in := bytewise cs\<rparr>)"
  by (simp add: readchar_def bytewise_def)

lemma readchar_empty:
  "readchar (Some Serial) (w\<lparr>serial_in := []\<rparr>) = (Inl Blocked, w\<lparr>serial_in := []\<rparr>)"
  by (simp add: readchar_def)

lemma skip_loop_bytewise:
  "skip_to_eol_loop (Some Serial) (w\<lparr>serial_in := bytewise cs\<rparr>) =
     (case dropWhile (\<lambda>x. x \<noteq> CR \<and> x \<noteq> LF) cs of
        [] \<Rightarrow> (Inl Blocked, w\<lparr>serial_in := []\<rparr>)
      | e # rest \<Rightarrow> (Inr (), w\<lparr>serial_in := bytewise rest\<rparr>))"
proof (induction cs)
  case Nil
  show ?case
    by (subst skip_to_eol_loop.simps) (simp add: bytewise_def readchar_def)
next
  case (Cons c cs)
  show ?case
    by (subst skip_to_eol_loop.simps) (simp add: readchar_bytewise Cons.IH)
qed

lemma read_signif_loop_bytewise:
  "read_signif_loop (Some Serial) (w\<lparr>serial_in := bytewise bs\<rparr>) =
     (case spec_result_token bs of
        None \<Rightarrow> (Inl Blocked, w\<lparr>serial_in := []\<rparr>)
      | Some (c, rest) \<Rightarrow> (Inr [c], w\<lparr>serial_in := bytewise rest\<rparr>))"
proof (induction bs rule: spec_result_token.induct)
  case 1
  show ?case
    by (subst read_signif_loop.simps) (simp add: bytewise_def readchar_def)
next
  case (2 c cs)
  show ?case
  proof (cases "c = CHR ''#''")
    case True
    show ?thesis
    proof (cases "dropWhile (\<lambda>x. x \<noteq> CR \<and> x \<noteq> LF) cs")
      case Nil
      show ?thesis
        by (subst read_signif_loop.simps)
           (simp add: True Nil readchar_bytewise skip_to_eol_def skip_loop_bytewise)
    next
      case (Cons e rest)
      show ?thesis
        by (subst read_signif_loop.simps)
           (simp add: True Cons "2.IH"(1) [OF True Cons] readchar_bytewise skip_to_eol_def
              skip_loop_bytewise)
    qed
  next
    case False
    show ?thesis
    proof (cases "c = CHR '' '' \<or> c = CR \<or> c = LF")
      case True
      with False "2.IH"(2) [OF False True] show ?thesis
        by (subst read_signif_loop.simps) (auto simp add: readchar_bytewise)
    next
      case ws: False
      with False show ?thesis
        by (subst read_signif_loop.simps) (simp add: readchar_bytewise)
    qed
  qed
qed

text \<open>
  Claim C5. On a line that delivers its bytes one per read, \<open>wait_arduino_OK\<close> resolves
  exactly the result token of the specification: spaces, CRs and LFs are skipped, a
  comment from \<open>#\<close> is dropped through its end of line, and the first other byte decides:
  \<open>0\<close> is success, any other byte ends the process by \<open>sys.exit(1)\<close>. A reply without a
  token leaves the read waiting for ever. The three replies of the claim resolve as it
  says.
\<close>

theorem wait_arduino_OK_resolves:
  "wait_arduino_OK (Some Serial) (w\<lparr>serial_in := bytewise bs\<rparr>) =
     (case spec_result_token bs of
        None \<Rightarrow> (Inl Blocked, w\<lparr>serial_in := []\<rparr>)
      | Some (c, rest) \<Rightarrow>
          (if c = CHR ''0'' then Inr () else Inl (SystemExit 1),
           w\<lparr>serial_in := bytewise rest\<rparr>))
   \<and> wait_arduino_OK (Some Serial) (w\<lparr>serial_in := bytewise (''# junk'' @ [CR, LF] @ ''0'')\<rparr>)
       = (Inr (), w\<lparr>serial_in := []\<rparr>)
   \<and> wait_arduino_OK (Some Serial) (w\<lparr>serial_in := bytewise (''  '' @ [LF] @ '' 0'')\<rparr>)
       = (Inr (), w\<lparr>serial_in := []\<rparr>)
   \<and> wait_arduino_OK (Some Serial) (w\<lparr>serial_in := bytewise ''1''\<rparr>)
       = (Inl (SystemExit 1), w\<lparr>serial_in := []\<rparr>)"
proof -
  have gen: "wait_arduino_OK (Some Serial) (w\<lparr>serial_in := bytewise bs\<rparr>) =
     (case spec_result_token bs of
        None \<Rightarrow> (Inl Blocked, w\<lparr>serial_in := []\<rparr>)
      | Some (c, rest) \<Rightarrow>
          (if c = CHR ''0'' then Inr () else Inl (SystemExit 1),
           w\<lparr>serial_in := bytewise rest\<rparr>))" for bs
    by (simp add: wait_arduino_OK_def read_signif_def read_signif_loop_bytewise proc_defs
             split: option.splits)
  show ?thesis
    by (simp add: gen) (simp add: bytewise_def)
qed

text \<open>
  Claim C6. A read of the serial line that returns no byte or more than one is fatal.
  \<open>readchar\<close> does not return it: building its complaint raises \<open>NameError\<close> (the helper
  \<open>show_chrs\<close> is not defined), nothing in \<open>muff_arduino.py\<close> catches it, and so it ends
  \<open>read_signif\<close>, \<open>wait_arduino_OK\<close> and the command that was waiting for its
  acknowledgement; whatever was to follow the command is not run.
\<close>

theorem bad_read_is_fatal:
  assumes "length c \<noteq> 1"
  shows "readchar (Some Serial) (w\<lparr>serial_in := c # rest\<rparr>)
           = (Inl (NameError ''show_chrs''), w\<lparr>serial_in := rest\<rparr>)
       \<and> skip_to_eol (Some Serial) (w\<lparr>serial_in := c # rest\<rparr>)
           = (Inl (NameError ''show_chrs''), w\<lparr>serial_in := rest\<rparr>)
       \<and> read_signif (Some Serial) (w\<lparr>serial_in := c # rest\<rparr>)
           = (Inl (NameError ''show_chrs''), w\<lparr>serial_in := rest\<rparr>)
       \<and> wait_arduino_OK (Some Serial) (w\<lparr>serial_in := c # rest\<rparr>)
           = (Inl (NameError ''show_chrs''), w\<lparr>serial_in := rest\<rparr>)
       \<and> bindp (send_command_and_wait (Some Serial) command) continue
             (w\<lparr>serial_in := c # rest\<rparr>)
           = (Inl (NameError ''show_chrs''),
              w\<lparr>trace := trace w @ [Serial_write command], serial_in := rest\<rparr>)"
proof -
  have rc: "readchar (Some Serial) (x\<lparr>serial_in := c # rest\<rparr>)
              = (Inl (NameError ''show_chrs''), x\<lparr>serial_in := rest\<rparr>)" for x
    using assms by (simp add: readchar_def)
  have sk: "skip_to_eol (Some Serial) (w\<lparr>serial_in := c # rest\<rparr>)
              = (Inl (NameError ''show_chrs''), w\<lparr>serial_in := rest\<rparr>)"
    by (simp add: skip_to_eol_def skip_to_eol_loop.simps [of _ "w\<lparr>serial_in := c # rest\<rparr>"] rc)
  have rs: "read_signif (Some Serial) (x\<lparr>serial_in := c # rest\<rparr>)
              = (Inl (NameError ''show_chrs''), x\<lparr>serial_in := rest\<rparr>)" for x
    by (simp add: read_signif_def read_signif_loop.simps [of _ "x\<lparr>serial_in := c # rest\<rparr>"] rc)
  have wa: "wait_arduino_OK (Some Serial) (x\<lparr>serial_in := c # rest\<rparr>)
              = (Inl (NameError ''show_chrs''), x\<lparr>serial_in := rest\<rparr>)" for x
    by (simp add: wait_arduino_OK_def bindp_def rs)
  have sw: "w\<lparr>serial_in := a, trace := t\<rparr> = w\<lparr>trace := t, serial_in := a\<rparr>" for a t
    by simp
  have "send_command_and_wait (Some Serial) command (w\<lparr>serial_in := c # rest\<rparr>)
          = (Inl (NameError ''show_chrs''),
             w\<lparr>trace := trace w @ [Serial_write command], serial_in := rest\<rparr>)"
    by (simp add: send_command_and_wait_def send_command_def seqp_def bindp_def emit_def sw wa)
  then have "bindp (send_command_and_wait (Some Serial) command) continue
               (w\<lparr>serial_in := c # rest\<rparr>)
          = (Inl (NameError ''show_chrs''),
             w\<lparr>trace := trace w @ [Serial_write command], serial_in := rest\<rparr>)"
    by (simp add: bindp_def)
  with rc [of w] sk rs [of w] wa [of w] show ?thesis by simp
qed

theorem bad_read_is_fatal_witness:
  "readchar (Some Serial) (world0\<lparr>serial_in := [[], ''0'']\<rparr>)
     = (Inl (NameError ''show_chrs''), world0\<lparr>serial_in := [''0'']\<rparr>)
   \<and> wait_arduino_OK (Some Serial) (world0\<lparr>serial_in := [[], ''0'']\<rparr>)
     = (Inl (NameError ''show_chrs''), world0\<lparr>serial_in := [''0'']\<rparr>)
   \<and> bindp (send_command_and_wait (Some Serial) ''3'') (\<lambda>u. move_microscope (Some Serial))
        (world0\<lparr>serial_in := [[], ''0'']\<rparr>)
     = (Inl (NameError ''show_chrs''),
        world0\<lparr>trace := trace world0 @ [Serial_write ''3''], serial_in := [''0'']\<rparr>)
   \<and> bindp (send_command_and_wait (Some Serial) ''3'') (\<lambda>u. move_microscope (Some Serial))
        (world0\<lparr>serial_in := [''00'', ''0'']\<rparr>)
     = (Inl (NameError ''show_chrs''),
        world0\<lparr>trace := trace world0 @ [Serial_write ''3''], serial_in := [''0'']\<rparr>)"
  using bad_read_is_fatal [where c = "[]" and w = world0 and rest = "[''0'']"
      and command = "''3''" and continue = "\<lambda>u. move_microscope (Some Serial)"]
    bad_read_is_fatal [where c = "''00''" and w = world0 and rest = "[''0'']"
      and command = "''3''" and continue = "\<lambda>u. move_microscope (Some Serial)"]
  by simp

section \<open>Properties of the light switching\<close>

lemma issued_append: "issued (xs @ ys) = issued xs @ issued ys"
  by (induction xs rule: issued.induct) simp_all

lemma readchar_frame:
  "readchar sport w = (r, w') \<Longrightarrow> w' = w\<lparr>serial_in := serial_in w'\<rparr>"
  by (auto simp: readchar_def split: if_splits list.splits)

lemma frame_trans:
  "w1 = w\<lparr>serial_in := serial_in w1\<rparr> \<Longrightarrow> w2 = w1\<lparr>serial_in := serial_in w2\<rparr>
     \<Longrightarrow> w2 = w\<lparr>serial_in := serial_in w2\<rparr>"
  by (metis world.surjective world.update_convs(1))

lemma skip_to_eol_loop_frame:
  "skip_to_eol_loop sport w = (r, w') \<Longrightarrow> w' = w\<lparr>serial_in := serial_in w'\<rparr>"
proof (induction sport w rule: skip_to_eol_loop.induct)
  case (1 sport w)
  obtain a w1 where rc: "readchar sport w = (a, w1)" by (cases "readchar sport w")
  note f1 = readchar_frame [OF rc]
  show ?case
  proof (cases a)
    case (Inl e)
    with rc "1.prems" have "w' = w1"
      by (simp add: skip_to_eol_loop.simps [of sport w])
    with f1 show ?thesis by simp
  next
    case (Inr c)
    show ?thesis
    proof (cases "c = [CR] \<or> c = [LF]")
      case True
      with rc Inr "1.prems" have "w' = w1"
        by (auto simp: skip_to_eol_loop.simps [of sport w])
      with f1 show ?thesis by simp
    next
      case False
      with rc Inr "1.prems" have "skip_to_eol_loop sport w1 = (r, w')"
        by (auto simp: skip_to_eol_loop.simps [of sport w])
      from "1.IH" [OF rc [symmetric] Inr False this] f1
      show ?thesis by (rule frame_trans [rotated])
    qed
  qed
qed

lemma read_signif_loop_frame:
  "read_signif_loop sport w = (r, w') \<Longrightarrow> w' = w\<lparr>serial_in := serial_in w'\<rparr>"
proof (induction sport w rule: read_signif_loop.induct)
  case (1 sport w)
  obtain a w1 where rc: "readchar sport w = (a, w1)" by (cases "readchar sport w")
  note f1 = readchar_frame [OF rc]
  show ?case
  proof (cases a)
    case (Inl e)
    with rc "1.prems" have "w' = w1"
      by (simp add: read_signif_loop.simps [of sport w])
    with f1 show ?thesis by simp
  next
    case (Inr c)
    show ?thesis
    proof (cases "c = ''#''")
      case True
      obtain b w2 where sk: "skip_to_eol sport w1 = (b, w2)" by (cases "skip_to_eol sport w1")
      then have f2: "w2 = w1\<lparr>serial_in := serial_in w2\<rparr>"
        by (auto simp: skip_to_eol_def split: if_splits dest: skip_to_eol_loop_frame)
      note f12 = frame_trans [OF f1 f2]
      show ?thesis
      proof (cases b)
        case (Inl e)
        with rc Inr True sk "1.prems" have "w' = w2"
          by (simp add: read_signif_loop.simps [of sport w])
        with f12 show ?thesis by simp
      next
        case u: (Inr u)
        with rc Inr True sk "1.prems" have "read_signif_loop sport w2 = (r, w')"
          by (simp add: read_signif_loop.simps [of sport w])
        from "1.IH"(1) [OF rc [symmetric] Inr True sk [symmetric] u this] f12
        show ?thesis by (rule frame_trans [rotated])
      qed
    next
      case False
      show ?thesis
      proof (cases "c \<noteq> '' '' \<and> c \<noteq> [CR] \<and> c \<noteq> [LF]")
        case True
        with rc Inr False "1.prems" have "w' = w1"
          by (auto simp: read_signif_loop.simps [of sport w])
        with f1 show ?thesis by simp
      next
        case ws: False
        with rc Inr False "1.prems" have "read_signif_loop sport w1 = (r, w')"
          by (auto simp: read_signif_loop.simps [of sport w])
        from "1.IH"(2) [OF rc [symmetric] Inr False ws this] f1
        show ?thesis by (rule frame_trans [rotated])
      qed
    qed
  qed
qed

lemma wait_arduino_OK_frame:
  "wait_arduino_OK sport w = (r, w') \<Longrightarrow> w' = w\<lparr>serial_in := serial_in w'\<rparr>"
  by (auto simp: wait_arduino_OK_def read_signif_def proc_defs
           split: if_splits prod.splits sum.splits dest: read_signif_loop_frame)

lemma send_command_and_wait_effect:
  assumes "send_command_and_wait sport c w = (r, w')"
  shows "\<exists>si. w' = w\<lparr>trace := trace w @ [if sport = None then Would_send c else Serial_write c],
                     serial_in := si\<rparr>"
proof -
  define e where "e = (if sport = None then Would_send c else Serial_write c)"
  from assms have "wait_arduino_OK sport (w\<lparr>trace := trace w @ [e]\<rparr>) = (r, w')"
    by (auto simp: e_def send_command_and_wait_def send_command_def proc_defs split: if_splits)
  from wait_arduino_OK_frame [OF this] show ?thesis unfolding e_def by blast
qed

lemma send_None [simp]:
  "send_command_and_wait None c w = (Inr (), w\<lparr>trace := trace w @ [Would_send c]\<rparr>)"
  by (simp add: send_command_and_wait_def send_command_def wait_arduino_OK_def proc_defs)


lemma issued_cmd_events [simp]: "issued (map (cmd_event sport) cs) = cs"
  by (cases sport; induction cs) (simp_all add: cmd_event_def)

lemma bindp_InrE:
  assumes "bindp m f w = (Inr y, w')"
  obtains x w1 where "m w = (Inr x, w1)" "f x w1 = (Inr y, w')"
  using assms by (auto simp: bindp_def split: prod.splits sum.splits)

lemma seqp_InrE:
  assumes "seqp m n w = (Inr y, w')"
  obtains x w1 where "m w = (Inr x, w1)" "n w1 = (Inr y, w')"
  using assms unfolding seqp_def by (erule bindp_InrE)

lemma py_index_nat [simp]: "i < n \<Longrightarrow> py_index n (int i) = Some i"
  by (simp add: py_index_def)

lemma load_nat [simp]: "i < length xs \<Longrightarrow> load xs (int i) = Inr (xs ! i)"
  by (simp add: load_def)

lemma store_nat [simp]: "i < length xs \<Longrightarrow> store xs (int i) x = Inr (xs[i := x])"
  by (simp add: store_def)

lemma switch_LED_eq:
  "i < 24 \<Longrightarrow> p = 0 \<or> p = 1 \<Longrightarrow>
     switch_LED sport (int i) p = send_command_and_wait sport (led_command i p)"
  by (auto simp: switch_LED_def led_command_def num_LEDs_def proc_defs Let_def fun_eq_iff)

lemma switch_LED_Inr:
  assumes "switch_LED sport (int i) p w = (Inr u, w')" "p = 0 \<or> p = 1"
  shows "i < 24"
  using assms by (auto simp: switch_LED_def num_LEDs_def proc_defs split: if_splits)

lemma set_LED_status_nat [simp]:
  "i < length (LED_status w) \<Longrightarrow>
     set_LED_status (int i) p w = (Inr (), w\<lparr>LED_status := (LED_status w)[i := Some p]\<rparr>)"
  by (simp add: set_LED_status_def)

lemma led_changes_Cons:
  "led_changes st v (i # ixs) =
     (if st ! i \<noteq> Some (v ! i) then [led_command i (v ! i)] else []) @ led_changes st v ixs"
  by (simp add: led_changes_def)

lemma led_changes_update:
  "i \<notin> set ixs \<Longrightarrow> led_changes (st[i := x]) v ixs = led_changes st v ixs"
  by (induction ixs) (auto simp: led_changes_def)

lemma set_light_loop_Cons:
  assumes "i < length v" "i < length (LED_status w)"
  shows "set_light_loop sport v (i # ixs) w =
     (if \<not> (v ! i = 0 \<or> v ! i = 1) then (Inl AssertionError, w)
      else if LED_status w ! i \<noteq> Some (v ! i) then
        (case switch_LED sport (int i) (v ! i) w of
           (Inl e, w1) \<Rightarrow> (Inl e, w1)
         | (Inr u, w1) \<Rightarrow>
             (case set_LED_status (int i) (v ! i) w1 of
                (Inl e, w2) \<Rightarrow> (Inl e, w2)
              | (Inr u, w2) \<Rightarrow> set_light_loop sport v ixs w2))
      else set_light_loop sport v ixs w)"
  using assms by (auto simp: proc_defs split: prod.splits sum.splits)

declare set_light_loop.simps(2) [simp del]

lemma set_light_loop_effect:
  assumes "set_light_loop sport v ixs w = (Inr (), w')"
    and "\<forall>i\<in>set ixs. i < length v \<and> i < length (LED_status w)" and "distinct ixs"
  shows "\<exists>si. w' = w\<lparr>LED_status := fold (\<lambda>i st. st[i := Some (v ! i)]) ixs (LED_status w),
                     trace := trace w @ map (cmd_event sport) (led_changes (LED_status w) v ixs),
                     serial_in := si\<rparr>"
  using assms
proof (induction ixs arbitrary: w)
  case Nil
  then have "w' = w" by (simp add: ret_def)
  then show ?case by (auto simp: led_changes_def intro: exI [of _ "serial_in w"])
next
  case (Cons i ixs)
  let ?p = "v ! i"
  from Cons.prems have i: "i < length v" "i < length (LED_status w)" by simp_all
  from Cons.prems(1) have p: "?p = 0 \<or> ?p = 1"
    unfolding set_light_loop_Cons [OF i] by (auto split: if_splits)
  show ?case
  proof (cases "LED_status w ! i = Some ?p")
    case True
    with Cons.prems(1) p have rest: "set_light_loop sport v ixs w = (Inr (), w')"
      unfolding set_light_loop_Cons [OF i] by simp
    from Cons.IH [OF rest] Cons.prems obtain si where
      "w' = w\<lparr>LED_status := fold (\<lambda>i st. st[i := Some (v ! i)]) ixs (LED_status w),
              trace := trace w @ map (cmd_event sport) (led_changes (LED_status w) v ixs),
              serial_in := si\<rparr>" by auto
    moreover have "(LED_status w)[i := Some ?p] = LED_status w"
      using True by (metis list_update_id)
    ultimately show ?thesis using True by (auto simp: led_changes_Cons)
  next
    case False
    with Cons.prems(1) p obtain w1 where
      sw: "switch_LED sport (int i) ?p w = (Inr (), w1)" and
      rest: "(case set_LED_status (int i) ?p w1 of
                (Inl e, w2) \<Rightarrow> (Inl e, w2)
              | (Inr u, w2) \<Rightarrow> set_light_loop sport v ixs w2) = (Inr (), w')"
      unfolding set_light_loop_Cons [OF i]
      by (auto split: prod.splits sum.splits)
    from sw p have i24: "i < 24" by (rule switch_LED_Inr)
    from sw obtain si1 where
      w1: "w1 = w\<lparr>trace := trace w @ [cmd_event sport (led_command i ?p)], serial_in := si1\<rparr>"
      unfolding switch_LED_eq [OF i24 p] cmd_event_def
      by (blast dest: send_command_and_wait_effect)
    let ?w2 = "w1\<lparr>LED_status := (LED_status w)[i := Some ?p]\<rparr>"
    from rest w1 i have loop: "set_light_loop sport v ixs ?w2 = (Inr (), w')"
      by simp
    from Cons.prems have "\<forall>j\<in>set ixs. j < length v \<and> j < length (LED_status ?w2)" "distinct ixs"
      by simp_all
    from Cons.IH [OF loop this] obtain si where
      "w' = ?w2\<lparr>LED_status := fold (\<lambda>i st. st[i := Some (v ! i)]) ixs (LED_status ?w2),
              trace := trace ?w2 @ map (cmd_event sport) (led_changes (LED_status ?w2) v ixs),
              serial_in := si\<rparr>" by blast
    moreover from Cons.prems have "i \<notin> set ixs" by simp
    ultimately show ?thesis using False w1
      by (auto simp: led_changes_Cons led_changes_update)
  qed
qed


lemma fold_status_length [simp]:
  "length (fold (\<lambda>i st. st[i := Some (v ! i)]) ixs st) = length st"
  by (induction ixs arbitrary: st) simp_all

lemma fold_status_nth:
  "j < length st \<Longrightarrow>
     fold (\<lambda>i st. st[i := Some (v ! i)]) ixs st ! j = (if j \<in> set ixs then Some (v ! j) else st ! j)"
  by (induction ixs arbitrary: st) (auto simp: nth_list_update)

lemma fold_status_all:
  assumes "length st = length v"
  shows "fold (\<lambda>i st. st[i := Some (v ! i)]) [0..<length v] st = map Some v"
  using assms by (intro nth_equalityI) (simp_all add: fold_status_nth)

lemma set_light_loop_same:
  assumes "\<forall>i\<in>set ixs. i < length v \<and> i < length (LED_status w)
             \<and> LED_status w ! i = Some (v ! i) \<and> (v ! i = 0 \<or> v ! i = 1)"
  shows "set_light_loop sport v ixs w = (Inr (), w)"
  using assms by (induction ixs) (simp_all add: set_light_loop_Cons ret_def)

lemma set_light_loop_None:
  assumes "\<forall>i\<in>set ixs. i < 24 \<and> i < length v \<and> i < length (LED_status w)
             \<and> (v ! i = 0 \<or> v ! i = 1)"
    and "distinct ixs"
  shows "set_light_loop None v ixs w =
           (Inr (), w\<lparr>LED_status := fold (\<lambda>i st. st[i := Some (v ! i)]) ixs (LED_status w),
                      trace := trace w @ map Would_send (led_changes (LED_status w) v ixs)\<rparr>)"
  using assms
proof (induction ixs arbitrary: w)
  case Nil
  show ?case by (simp add: ret_def led_changes_def)
next
  case (Cons i ixs)
  from Cons.prems have i: "i < 24" "i < length v" "i < length (LED_status w)"
    and p: "v ! i = 0 \<or> v ! i = 1" and ni: "i \<notin> set ixs" by simp_all
  show ?case
  proof (cases "LED_status w ! i = Some (v ! i)")
    case True
    then have "(LED_status w)[i := Some (v ! i)] = LED_status w" by (metis list_update_id)
    with True p i Cons.prems Cons.IH [of w] show ?thesis
      by (simp add: set_light_loop_Cons led_changes_Cons)
  next
    case False
    let ?w2 = "w\<lparr>trace := trace w @ [Would_send (led_command i (v ! i))],
                 LED_status := (LED_status w)[i := Some (v ! i)]\<rparr>"
    from Cons.prems have "\<forall>j\<in>set ixs. j < 24 \<and> j < length v \<and> j < length (LED_status ?w2)
             \<and> (v ! j = 0 \<or> v ! j = 1)" "distinct ixs" by simp_all
    from Cons.IH [OF this] False p i ni show ?thesis
      by (simp add: set_light_loop_Cons switch_LED_eq led_changes_Cons led_changes_update)
  qed
qed

lemma set_light_condition_None:
  assumes "length v = 24" "length (LED_status w) = 24" "\<forall>x\<in>set v. x = 0 \<or> x = 1"
  shows "set_light_condition None v w =
           (Inr (), w\<lparr>LED_status := map Some v,
                      trace := trace w @ map Would_send (led_changes (LED_status w) v [0..<24])\<rparr>)"
proof -
  have "\<forall>i\<in>set [0..<24]. i < 24 \<and> i < length v \<and> i < length (LED_status w)
             \<and> (v ! i = 0 \<or> v ! i = 1)"
    using assms by (auto simp: all_set_conv_all_nth)
  from set_light_loop_None [OF this] fold_status_all [of "LED_status w" v] assms
  show ?thesis by (simp add: set_light_condition_def num_LEDs_def throw_def)
qed

text \<open>
  Claim C8. Let \<open>v\<close> be a vector of 24 intensities, each \<open>0.0\<close> or \<open>1.0\<close>, and let the
  cache hold 24 entries. When \<open>set_light_condition\<close> returns, the commands it has given
  are the switch commands for exactly the entries of \<open>v\<close> that differ from the cache, in
  the order of the LEDs, and the cache then mirrors \<open>v\<close>; applied again at once it gives
  no command and changes nothing. Without a serial port the first application always
  returns.
\<close>

theorem set_light_condition_twice:
  assumes "length v = 24" "\<forall>x\<in>set v. x = 0 \<or> x = 1" "length (LED_status w) = 24"
  shows "(\<forall>w1. set_light_condition sport v w = (Inr (), w1) \<longrightarrow>
            issued (trace w1) = issued (trace w) @ led_changes (LED_status w) v [0..<24]
            \<and> LED_status w1 = map Some v
            \<and> set_light_condition sport v w1 = (Inr (), w1))
         \<and> (\<exists>w1. set_light_condition None v w = (Inr (), w1))"
proof (intro conjI allI impI)
  show "\<exists>w1. set_light_condition None v w = (Inr (), w1)"
    using set_light_condition_None [OF assms(1,3,2)] by blast
next
  fix w1 assume ok: "set_light_condition sport v w = (Inr (), w1)"
  with assms have loop: "set_light_loop sport v [0..<24] w = (Inr (), w1)"
    by (simp add: set_light_condition_def num_LEDs_def)
  have "\<forall>i\<in>set [0..<24]. i < length v \<and> i < length (LED_status w)" using assms by simp
  from set_light_loop_effect [OF loop this] fold_status_all [of "LED_status w" v] assms
  obtain si where w1: "w1 = w\<lparr>LED_status := map Some v,
       trace := trace w @ map (cmd_event sport) (led_changes (LED_status w) v [0..<24]),
       serial_in := si\<rparr>" by auto
  then show "issued (trace w1) = issued (trace w) @ led_changes (LED_status w) v [0..<24]"
    by (simp add: issued_append)
  from w1 show st: "LED_status w1 = map Some v" by simp
  have "\<forall>i\<in>set [0..<24]. i < length v \<and> i < length (LED_status w1)
             \<and> LED_status w1 ! i = Some (v ! i) \<and> (v ! i = 0 \<or> v ! i = 1)"
    using assms st by (auto simp: all_set_conv_all_nth)
  from set_light_loop_same [OF this] assms
  show "set_light_condition sport v w1 = (Inr (), w1)"
    by (simp add: set_light_condition_def num_LEDs_def)
qed

theorem set_light_condition_twice_witness:
  "set_light_condition None manual_Lval (world0\<lparr>LED_status := replicate 24 (Some 0)\<rparr>)
     = (Inr (), world0\<lparr>LED_status := map Some manual_Lval,
                       trace := map Would_send [''+A'', ''+D'', ''+G'', ''+J'']\<rparr>)
   \<and> set_light_condition None manual_Lval
        (world0\<lparr>LED_status := map Some manual_Lval,
                trace := map Would_send [''+A'', ''+D'', ''+G'', ''+J'']\<rparr>)
     = (Inr (), world0\<lparr>LED_status := map Some manual_Lval,
                       trace := map Would_send [''+A'', ''+D'', ''+G'', ''+J'']\<rparr>)"
proof -
  let ?w = "world0\<lparr>LED_status := replicate 24 (Some 0)\<rparr>"
  let ?w1 = "world0\<lparr>LED_status := map Some manual_Lval,
                    trace := map Would_send [''+A'', ''+D'', ''+G'', ''+J'']\<rparr>"
  have v: "length manual_Lval = 24" "\<forall>x\<in>set manual_Lval. x = 0 \<or> x = 1"
    by code_simp+
  have st: "length (LED_status ?w) = 24" by simp
  have first: "set_light_condition None manual_Lval ?w = (Inr (), ?w1)"
    by code_simp
  with set_light_condition_twice [OF v st, of None]
  have "set_light_condition None manual_Lval ?w1 = (Inr (), ?w1)" by blast
  with first show ?thesis by simp
qed

section \<open>Properties of manual positioning\<close>

text \<open>A command on a live port whose next reply is the acknowledgement \<open>0\<close>.\<close>

lemma send_acked:
  "serial_in w = ''0'' # acks \<Longrightarrow>
     send_command_and_wait (Some Serial) c w
       = (Inr (), w\<lparr>trace := trace w @ [Serial_write c], serial_in := acks\<rparr>)"
  by (simp add: send_command_and_wait_def send_command_def wait_arduino_OK_def read_signif_def
        read_signif_loop.simps [of _ "w\<lparr>trace := trace w @ [Serial_write c]\<rparr>"]
        readchar_def proc_defs)

text \<open>The commands without a serial port: each is logged and succeeds.\<close>

lemma stop_motor_None [simp]:
  "stop_motor None w = (Inr (), w\<lparr>trace := trace w @ [Would_send ''3'']\<rparr>)"
  by (simp add: stop_motor_def)

lemma move_microscope_None [simp]:
  "move_microscope None w = (Inr (), w\<lparr>trace := trace w @ [Would_send ''5'']\<rparr>)"
  by (simp add: move_microscope_def)

lemma switch_all_LEDs_None_off [simp]:
  "switch_all_LEDs None 0 w = (Inr (), w\<lparr>trace := trace w @ [Would_send ''-@'']\<rparr>)"
  by (simp add: switch_all_LEDs_def)

lemma start_motor_None:
  "start_motor None 1 False w = (Inr (), w\<lparr>trace := trace w @ [Would_send ''3'', Would_send ''1'']\<rparr>)"
  "start_motor None (- 1) False w = (Inr (), w\<lparr>trace := trace w @ [Would_send ''3'', Would_send ''2'']\<rparr>)"
  "start_motor None 1 True w = (Inr (), w\<lparr>trace := trace w @ [Would_send ''3'', Would_send ''6'']\<rparr>)"
  "start_motor None (- 1) True w = (Inr (), w\<lparr>trace := trace w @ [Would_send ''3'', Would_send ''7'']\<rparr>)"
  by (simp_all add: start_motor_def proc_defs)

lemma strip_Nil [simp]: "strip [] = []"
  by (simp add: strip_def)

lemma lower_Nil [simp]: "lower [] = []"
  by (simp add: lower_def)

lemma lower_letters:
  "lower ''u'' = ''u''" "lower ''d'' = ''d''" "lower ''U'' = ''u''" "lower ''D'' = ''d''"
  by code_simp+

lemma place_loop_rules:
  "place_loop None [] w
     = (Inr False, w\<lparr>trace := trace w @ [Prompt, Stdin_read [], Would_send ''3'']\<rparr>)"
  "lower (strip s) = ''ok'' \<Longrightarrow>
     place_loop None (s # rest) w
       = (Inr True, w\<lparr>trace := trace w @ [Prompt, Stdin_read s, Would_send ''3''],
                       Z_curr := Some 0\<rparr>)"
  "lower (strip s) = ''abort'' \<or> lower (strip s) = ''q'' \<Longrightarrow>
     place_loop None (s # rest) w
       = (Inr False, w\<lparr>trace := trace w @ [Prompt, Stdin_read s, Would_send ''3'']\<rparr>)"
  "lower (strip s) = ''s'' \<Longrightarrow>
     place_loop None (s # rest) w
       = place_loop None rest (w\<lparr>trace := trace w @ [Prompt, Stdin_read s, Would_send ''3'']\<rparr>)"
  "s \<noteq> [] \<Longrightarrow> strip s = [] \<Longrightarrow>
     place_loop None (s # rest) w
       = place_loop None rest (w\<lparr>trace := trace w @ [Prompt, Stdin_read s]\<rparr>)"
  "strip s = ''u'' \<Longrightarrow>
     place_loop None (s # rest) w
       = place_loop None rest
           (w\<lparr>trace := trace w @ [Prompt, Stdin_read s, Would_send ''3'', Would_send ''1'']\<rparr>)"
  "strip s \<notin> {''u'', ''d'', ''U'', ''D'', []} \<Longrightarrow>
   lower (strip s) \<notin> {''ok'', ''abort'', ''q'', ''s''} \<Longrightarrow>
     place_loop None (s # rest) w
       = place_loop None rest (w\<lparr>trace := trace w @ [Prompt, Stdin_read s, complaint (strip s)]\<rparr>)"
       apply (simp add: proc_defs)
      apply (auto simp add: proc_defs Let_def)[1]
     apply (auto simp add: proc_defs Let_def)[1]
    apply (auto simp add: proc_defs Let_def lower_letters)[1]
   apply (auto simp add: proc_defs Let_def)[1]
  apply (auto simp add: proc_defs Let_def lower_letters start_motor_None)[1]
  apply (auto simp add: proc_defs Let_def complaint_def)[1]
  done


lemma strip_examples:
  "strip (''u'' @ [LF]) = ''u''" "strip (''s'' @ [LF]) = ''s''" "strip (''ok'' @ [LF]) = ''ok''"
  "lower ''s'' = ''s''" "lower ''ok'' = ''ok''"
  by code_simp+

text \<open>
  Claim C9. Without a serial port (as \<open>muff_mainloop.py\<close> runs: \<open>arduino_present\<close> is
  \<open>False\<close>) and with a cache of 24 entries, the operator lines \<open>u\<close>, \<open>s\<close>, \<open>ok\<close> make
  \<open>place_camera_for_first_image\<close> return \<open>True\<close> with \<open>Z_curr = 0.0\<close>; after the line
  \<open>ok\<close> is read exactly one command is given, the stop command \<open>3\<close>. For any line:
  \<open>ok\<close>, \<open>abort\<close>, \<open>q\<close> and \<open>s\<close> are recognised whatever their case and the white space
  around them; \<open>ok\<close> stops the motor, sets \<open>Z_curr\<close> and returns \<open>True\<close>; \<open>abort\<close> and \<open>q\<close>
  stop the motor and return \<open>False\<close>, and so does the end of the input; \<open>s\<close> stops the
  motor and asks again; a blank line only asks again; any line that is no command is
  reported and the prompt repeated. On a live port that acknowledges every command the
  same three lines give the same result, the commands written to the port being the four
  LED commands of the positioning light, then \<open>3\<close>, \<open>1\<close>, \<open>3\<close>, \<open>3\<close>; and on a live port
  whose next reply is an acknowledgement, \<open>ok\<close> writes the stop command \<open>3\<close> alone.
\<close>

theorem manual_positioning:
  "(length (LED_status w) = 24 \<longrightarrow>
      place_camera_for_first_image None [''u'' @ [LF], ''s'' @ [LF], ''ok'' @ [LF]] w
        = (Inr True,
           w\<lparr>LED_status := map Some manual_Lval,
             trace := trace w @ map Would_send (led_changes (LED_status w) manual_Lval [0..<24])
                      @ [Prompt, Stdin_read (''u'' @ [LF]), Would_send ''3'', Would_send ''1'',
                         Prompt, Stdin_read (''s'' @ [LF]), Would_send ''3'',
                         Prompt, Stdin_read (''ok'' @ [LF]), Would_send ''3''],
             Z_curr := Some 0\<rparr>))
   \<and> (lower (strip s) = ''ok'' \<longrightarrow>
        place_loop None (s # rest) w
          = (Inr True, w\<lparr>trace := trace w @ [Prompt, Stdin_read s, Would_send ''3''],
                          Z_curr := Some 0\<rparr>))
   \<and> (lower (strip s) = ''abort'' \<or> lower (strip s) = ''q'' \<longrightarrow>
        place_loop None (s # rest) w
          = (Inr False, w\<lparr>trace := trace w @ [Prompt, Stdin_read s, Would_send ''3'']\<rparr>))
   \<and> (lower (strip s) = ''s'' \<longrightarrow>
        place_loop None (s # rest) w
          = place_loop None rest
              (w\<lparr>trace := trace w @ [Prompt, Stdin_read s, Would_send ''3'']\<rparr>))
   \<and> place_loop None [] w
        = (Inr False, w\<lparr>trace := trace w @ [Prompt, Stdin_read [], Would_send ''3'']\<rparr>)
   \<and> (s \<noteq> [] \<and> strip s = [] \<longrightarrow>
        place_loop None (s # rest) w
          = place_loop None rest (w\<lparr>trace := trace w @ [Prompt, Stdin_read s]\<rparr>))
   \<and> (strip s \<notin> {''u'', ''d'', ''U'', ''D'', []}
        \<and> lower (strip s) \<notin> {''ok'', ''abort'', ''q'', ''s''} \<longrightarrow>
        place_loop None (s # rest) w
          = place_loop None rest
              (w\<lparr>trace := trace w @ [Prompt, Stdin_read s, complaint (strip s)]\<rparr>))
   \<and> place_camera_for_first_image (Some Serial) [''u'' @ [LF], ''s'' @ [LF], ''ok'' @ [LF]]
        (world0\<lparr>serial_in := replicate 8 ''0'', LED_status := replicate 24 (Some 0)\<rparr>)
        = (Inr True,
           world0\<lparr>serial_in := [], LED_status := map Some manual_Lval,
             trace := [Serial_write ''+A'', Serial_write ''+D'', Serial_write ''+G'',
                       Serial_write ''+J'',
                       Prompt, Stdin_read (''u'' @ [LF]), Serial_write ''3'', Serial_write ''1'',
                       Prompt, Stdin_read (''s'' @ [LF]), Serial_write ''3'',
                       Prompt, Stdin_read (''ok'' @ [LF]), Serial_write ''3''],
             Z_curr := Some 0\<rparr>)
   \<and> (serial_in w = ''0'' # acks \<and> lower (strip s) = ''ok'' \<longrightarrow>
        place_loop (Some Serial) (s # rest) w
          = (Inr True, w\<lparr>trace := trace w @ [Prompt, Stdin_read s, Serial_write ''3''],
                          serial_in := acks, Z_curr := Some 0\<rparr>))"
proof -
  have v: "length manual_Lval = 24" "\<forall>x\<in>set manual_Lval. x = 0 \<or> x = 1"
    by code_simp+
  have live:
    "place_camera_for_first_image (Some Serial) [''u'' @ [LF], ''s'' @ [LF], ''ok'' @ [LF]]
        (world0\<lparr>serial_in := replicate 8 ''0'', LED_status := replicate 24 (Some 0)\<rparr>)
        = (Inr True,
           world0\<lparr>serial_in := [], LED_status := map Some manual_Lval,
             trace := [Serial_write ''+A'', Serial_write ''+D'', Serial_write ''+G'',
                       Serial_write ''+J'',
                       Prompt, Stdin_read (''u'' @ [LF]), Serial_write ''3'', Serial_write ''1'',
                       Prompt, Stdin_read (''s'' @ [LF]), Serial_write ''3'',
                       Prompt, Stdin_read (''ok'' @ [LF]), Serial_write ''3''],
             Z_curr := Some 0\<rparr>)"
    by code_simp
  have live_ok: "place_loop (Some Serial) (s # rest) w
          = (Inr True, w\<lparr>trace := trace w @ [Prompt, Stdin_read s, Serial_write ''3''],
                          serial_in := acks, Z_curr := Some 0\<rparr>)"
    if "serial_in w = ''0'' # acks" "lower (strip s) = ''ok''"
    using that by (auto simp add: proc_defs Let_def stop_motor_def send_acked)
  have "place_camera_for_first_image None [''u'' @ [LF], ''s'' @ [LF], ''ok'' @ [LF]] w
        = (Inr True,
           w\<lparr>LED_status := map Some manual_Lval,
             trace := trace w @ map Would_send (led_changes (LED_status w) manual_Lval [0..<24])
                      @ [Prompt, Stdin_read (''u'' @ [LF]), Would_send ''3'', Would_send ''1'',
                         Prompt, Stdin_read (''s'' @ [LF]), Would_send ''3'',
                         Prompt, Stdin_read (''ok'' @ [LF]), Would_send ''3''],
             Z_curr := Some 0\<rparr>)"
    if "length (LED_status w) = 24"
    using strip_examples
    by (simp add: place_camera_for_first_image_def seqp_def bindp_def
          set_light_condition_None [OF v(1) that v(2)] place_loop_rules
          del: place_loop.simps)
  note scenario = this
  show ?thesis
    by (intro conjI impI;
        (erule scenario | rule live | simp add: place_loop_rules live_ok del: place_loop.simps))
qed


theorem manual_positioning_witness:
  "place_camera_for_first_image None [''u'' @ [LF], ''s'' @ [LF], ''ok'' @ [LF]]
     (world0\<lparr>LED_status := replicate 24 (Some 0)\<rparr>)
     = (Inr True,
        world0\<lparr>LED_status := map Some manual_Lval,
          trace := [Would_send ''+A'', Would_send ''+D'', Would_send ''+G'', Would_send ''+J'',
                    Prompt, Stdin_read (''u'' @ [LF]), Would_send ''3'', Would_send ''1'',
                    Prompt, Stdin_read (''s'' @ [LF]), Would_send ''3'',
                    Prompt, Stdin_read (''ok'' @ [LF]), Would_send ''3''],
          Z_curr := Some 0\<rparr>)
   \<and> place_loop None [''OK'' @ [LF]] world0
     = (Inr True, world0\<lparr>trace := [Prompt, Stdin_read (''OK'' @ [LF]), Would_send ''3''],
                         Z_curr := Some 0\<rparr>)
   \<and> place_loop None [''  Abort '' @ [LF], ''ok'' @ [LF]] world0
     = (Inr False, world0\<lparr>trace := [Prompt, Stdin_read (''  Abort '' @ [LF]), Would_send ''3'']\<rparr>)
   \<and> place_loop None [''S'' @ [LF]] world0
     = (Inr False, world0\<lparr>trace := [Prompt, Stdin_read (''S'' @ [LF]), Would_send ''3'',
                                     Prompt, Stdin_read [], Would_send ''3'']\<rparr>)
   \<and> place_loop None [[LF], ''go'' @ [LF], ''Q'' @ [LF]] world0
     = (Inr False, world0\<lparr>trace := [Prompt, Stdin_read [LF],
                                     Prompt, Stdin_read (''go'' @ [LF]), complaint ''go'',
                                     Prompt, Stdin_read (''Q'' @ [LF]), Would_send ''3'']\<rparr>)"
proof -
  let ?w = "world0\<lparr>LED_status := replicate 24 (Some 0)\<rparr>"
  have a: "length (LED_status ?w) = 24"
    "led_changes (LED_status ?w) manual_Lval [0..<24] = [''+A'', ''+D'', ''+G'', ''+J'']"
    "trace ?w = []" "trace world0 = []"
    by code_simp+
  have b: "lower (strip (''OK'' @ [LF])) = ''ok''" "lower (strip (''  Abort '' @ [LF])) = ''abort''"
    "lower (strip (''S'' @ [LF])) = ''s''" "[LF] \<noteq> []" "strip [LF] = []"
    "strip (''go'' @ [LF]) = ''go''" "lower ''go'' = ''go''"
    "lower (strip (''Q'' @ [LF])) = ''q''"
    by code_simp+
  have c: "''go'' \<notin> {''u'', ''d'', ''U'', ''D'', []}" "''go'' \<notin> {''ok'', ''abort'', ''q'', ''s''}"
    by simp_all
  note t = manual_positioning
  from t [of ?w] a have 1: "place_camera_for_first_image None [''u'' @ [LF], ''s'' @ [LF], ''ok'' @ [LF]] ?w
     = (Inr True,
        world0\<lparr>LED_status := map Some manual_Lval,
          trace := [Would_send ''+A'', Would_send ''+D'', Would_send ''+G'', Would_send ''+J'',
                    Prompt, Stdin_read (''u'' @ [LF]), Would_send ''3'', Would_send ''1'',
                    Prompt, Stdin_read (''s'' @ [LF]), Would_send ''3'',
                    Prompt, Stdin_read (''ok'' @ [LF]), Would_send ''3''],
          Z_curr := Some 0\<rparr>)" by simp
  from t [of world0 "''OK'' @ [LF]" "[]"] a b
  have 2: "place_loop None [''OK'' @ [LF]] world0
     = (Inr True, world0\<lparr>trace := [Prompt, Stdin_read (''OK'' @ [LF]), Would_send ''3''],
                         Z_curr := Some 0\<rparr>)" by simp
  from t [of world0 "''  Abort '' @ [LF]" "[''ok'' @ [LF]]"] a b
  have 3: "place_loop None [''  Abort '' @ [LF], ''ok'' @ [LF]] world0
     = (Inr False, world0\<lparr>trace := [Prompt, Stdin_read (''  Abort '' @ [LF]), Would_send ''3'']\<rparr>)"
    by simp
  from t [of world0 "''S'' @ [LF]" "[]"]
    t [of "world0\<lparr>trace := [Prompt, Stdin_read (''S'' @ [LF]), Would_send ''3'']\<rparr>"] a b
  have 4: "place_loop None [''S'' @ [LF]] world0
     = (Inr False, world0\<lparr>trace := [Prompt, Stdin_read (''S'' @ [LF]), Would_send ''3'',
                                     Prompt, Stdin_read [], Would_send ''3'']\<rparr>)"
    by simp
  from t [of world0 "[LF]" "[''go'' @ [LF], ''Q'' @ [LF]]"]
    t [of "world0\<lparr>trace := [Prompt, Stdin_read [LF]]\<rparr>" "''go'' @ [LF]" "[''Q'' @ [LF]]"]
    t [of "world0\<lparr>trace := [Prompt, Stdin_read [LF], Prompt, Stdin_read (''go'' @ [LF]),
            complaint ''go'']\<rparr>" "''Q'' @ [LF]" "[]"] a b c
  have 5: "place_loop None [[LF], ''go'' @ [LF], ''Q'' @ [LF]] world0
     = (Inr False, world0\<lparr>trace := [Prompt, Stdin_read [LF],
                                     Prompt, Stdin_read (''go'' @ [LF]), complaint ''go'',
                                     Prompt, Stdin_read (''Q'' @ [LF]), Would_send ''3'']\<rparr>)"
    by (simp del: place_loop.simps)
  from 1 2 3 4 5 show ?thesis by (simp del: place_loop.simps)
qed

section \<open>Properties of the capture sequence\<close>

lemma lights_off_loop_ok:
  "\<forall>i\<in>set ixs. i < length (LED_status w) \<Longrightarrow>
     lights_off_loop ixs w
       = (Inr (), w\<lparr>LED_status := fold (\<lambda>i st. st[i := Some 0]) ixs (LED_status w)\<rparr>)"
  by (induction ixs arbitrary: w) (simp_all add: proc_defs)

lemma fold_off_length [simp]: "length (fold (\<lambda>i st. st[i := x]) ixs st) = length st"
  by (induction ixs arbitrary: st) simp_all

lemma fold_off_nth:
  "j < length st \<Longrightarrow> fold (\<lambda>i st. st[i := x]) ixs st ! j = (if j \<in> set ixs then x else st ! j)"
  by (induction ixs arbitrary: st) (auto simp: nth_list_update)

lemma fold_off_all: "fold (\<lambda>i st. st[i := x]) [0..<length st] st = replicate (length st) x"
  by (intro nth_equalityI) (simp_all add: fold_off_nth)

lemma switch_all_lights_off_None:
  assumes "length (LED_status w) = 24"
  shows "switch_all_lights_off None w
           = (Inr (), w\<lparr>trace := trace w @ [Would_send ''-@''],
                        LED_status := replicate 24 (Some 0)\<rparr>)"
  using assms fold_off_all [of "Some 0" "LED_status w"]
  by (simp add: switch_all_lights_off_def seqp_def bindp_def num_LEDs_def lights_off_loop_ok)

lemma capture_frame_reply:
  assumes "m2c_open w" "c2m_in w = s # replies"
  shows "capture_frame (Some M2C) (Some C2M) topdir L V H w
           = (Inr (s = ''ok'' @ [LF]),
              w\<lparr>trace := trace w @ [M2c_write (''G '' @ make_frame_filename topdir L V H),
                                      M2c_write [LF], M2c_flush, C2m_read s],
                c2m_in := replies\<rparr>)"
  using assms
  by (auto simp: capture_frame_def capture_frame_camview_def use_uvc_def camera_present_def
        proc_defs Let_def)

lemma capture_frame_closed:
  assumes "m2c_open w" "c2m_in w = []"
  shows "capture_frame (Some M2C) (Some C2M) topdir L V H w
           = (Inr False,
              w\<lparr>trace := trace w @ [M2c_write (''G '' @ make_frame_filename topdir L V H),
                                      M2c_write [LF], M2c_flush, C2m_read []]\<rparr>)"
  using assms
  by (auto simp: capture_frame_def capture_frame_camview_def use_uvc_def camera_present_def
        proc_defs Let_def)

lemma ancestors_shorter: "a \<in> set (ancestors path) \<Longrightarrow> length a < length path"
  by (auto simp: ancestors_def)

lemma create_directories_one:
  assumes "topdir = ''muff_scans/'' @ utc_stamp w" "topdir \<notin> set (dirs w)"
    "topdir @ ''/L_00/V_00/raw'' \<notin> set (dirs w)"
  shows "create_directories 1 1 w
           = (Inr topdir,
              w\<lparr>dirs := dirs w @ ancestors topdir @ [topdir]
                          @ ancestors (topdir @ ''/L_00/V_00/raw'') @ [topdir @ ''/L_00/V_00/raw'']\<rparr>)"
proof -
  have f: "fmt_d False 2 0 = ''00''" by code_simp
  have "topdir @ ''/L_00/V_00/raw'' \<notin> set (ancestors topdir)"
    by (auto dest: ancestors_shorter)
  with assms show ?thesis
    by (simp add: create_directories_def nL_max_def nV_max_def num_LEDs_def proc_defs makedirs_def
          make_subdir_name_def f Let_def)
qed


lemma m2c_text_append: "m2c_text (xs @ ys) = m2c_text xs @ m2c_text ys"
  by (induction xs rule: m2c_text.induct) simp_all

lemma m2c_text_Would_send [simp]: "m2c_text (map Would_send cs) = []"
  by (induction cs) simp_all

lemma issued_Would_send [simp]: "issued (map Would_send cs) = cs"
  by (induction cs) simp_all

lemma led_command_length: "length (led_command i p) = 2"
  by (simp add: led_command_def)

lemma led_changes_length: "c \<in> set (led_changes st v ixs) \<Longrightarrow> length c = 2"
  by (auto simp: led_changes_def led_command_length)

lemma step_not_in_led_changes: "''5'' \<notin> set (led_changes st v ixs)"
  by (auto dest: led_changes_length)

lemma capture_two_heights_state:
  assumes "Z_curr w = Some 0" "length (LED_status w) = 24" "m2c_open w"
    and "c2m_in w = (''ok'' @ [LF]) # (''ok'' @ [LF]) # replies"
    and "topdir = ''muff_scans/'' @ utc_stamp w"
    and "topdir \<notin> set (dirs w)" "topdir @ ''/L_00/V_00/raw'' \<notin> set (dirs w)"
  shows "capture_image_set None (Some M2C) (Some C2M) 1 1 2 (1 / 10) w
     = (Inr True,
        w\<lparr>dirs := dirs w @ ancestors topdir @ [topdir]
                    @ ancestors (topdir @ ''/L_00/V_00/raw'') @ [topdir @ ''/L_00/V_00/raw''],
          trace := trace w
            @ map Would_send (led_changes (LED_status w) (lit_vector [2, 5, 6, 7, 10, 18]) [0..<24])
            @ [M2c_write (''G '' @ topdir @ ''/L_00/V_00/raw/frame_00000.jpg''), M2c_write [LF],
               M2c_flush, C2m_read (''ok'' @ [LF]), Would_send ''-@'',
               Would_send ''5'',
               Would_send ''+C'', Would_send ''+F'', Would_send ''+G'', Would_send ''+H'',
               Would_send ''+K'', Would_send ''+S'',
               M2c_write (''G '' @ topdir @ ''/L_00/V_00/raw/frame_00001.jpg''), M2c_write [LF],
               M2c_flush, C2m_read (''ok'' @ [LF]), Would_send ''-@''],
          c2m_in := replies, Z_curr := Some (1 / 10),
          LED_status := replicate 24 (Some 0)\<rparr>)"
proof -
  have v: "define_LED_vals 0 1 = Inr (lit_vector [2, 5, 6, 7, 10, 18])"
    "length (lit_vector [2, 5, 6, 7, 10, 18]) = 24"
    "\<forall>x\<in>set (lit_vector [2, 5, 6, 7, 10, 18]). x = 0 \<or> x = 1"
    "led_changes (replicate 24 (Some 0)) (lit_vector [2, 5, 6, 7, 10, 18]) [0..<24]
       = [''+C'', ''+F'', ''+G'', ''+H'', ''+K'', ''+S'']"
    by code_simp+
  have f: "fmt_d False 2 0 = ''00''" "fmt_d False 5 0 = ''00000''" "fmt_d False 5 1 = ''00001''"
    "[0..<2] = [0, 1::nat]" "[0..<1] = [0::nat]"
    by code_simp+
  note cd = create_directories_one [OF assms(5,6,7)]
  show ?thesis
    using assms(1-4)
    by (simp add: capture_image_set_def nL_max_def nV_max_def nH_max_def num_LEDs_def
          Z_step_min_def Z_step_max_def Z_range_max_def cd f v proc_defs
          set_light_condition_None switch_all_lights_off_None capture_frame_reply
          make_frame_filename_def make_subdir_name_def advance_Z_curr_def)
qed


text \<open>
  Claim C2. Take \<open>nL = 1\<close>, \<open>nV = 1\<close>, \<open>nH = 2\<close>, \<open>Z_step = 0.1\<close>, no serial port, a state
  with \<open>Z_curr = 0.0\<close> and a cache of 24 entries, a frame grabber that takes the requests
  and acknowledges the first two, and a directory tree without the two directories to be
  made. Then \<open>capture_image_set\<close> returns \<open>True\<close>; it writes exactly two requests to the
  frame grabber, for \<open>.../L_00/V_00/raw/frame_00000.jpg\<close> and \<open>.../frame_00001.jpg\<close>; it
  gives the step command \<open>5\<close> exactly once, after the first frame is acknowledged and its
  lights are off and before the lights of the second frame go on; and \<open>Z_curr\<close> ends at
  \<open>0.1\<close>. The same session on a live port that acknowledges all seventeen commands,
  started after manual positioning, is given with its whole trace.
\<close>

theorem two_heights_session:
  assumes "Z_curr w = Some 0" "length (LED_status w) = 24" "m2c_open w"
    and "c2m_in w = (''ok'' @ [LF]) # (''ok'' @ [LF]) # replies"
    and "topdir = ''muff_scans/'' @ utc_stamp w"
    and "topdir \<notin> set (dirs w)" "topdir @ ''/L_00/V_00/raw'' \<notin> set (dirs w)"
  shows "(\<exists>w'. capture_image_set None (Some M2C) (Some C2M) 1 1 2 (1 / 10) w = (Inr True, w')
     \<and> Z_curr w' = Some (1 / 10)
     \<and> trace w' = trace w
          @ map Would_send (led_changes (LED_status w) (lit_vector [2, 5, 6, 7, 10, 18]) [0..<24])
          @ [M2c_write (''G '' @ topdir @ ''/L_00/V_00/raw/frame_00000.jpg''), M2c_write [LF],
             M2c_flush, C2m_read (''ok'' @ [LF]), Would_send ''-@'',
             Would_send ''5'',
             Would_send ''+C'', Would_send ''+F'', Would_send ''+G'', Would_send ''+H'',
             Would_send ''+K'', Would_send ''+S'',
             M2c_write (''G '' @ topdir @ ''/L_00/V_00/raw/frame_00001.jpg''), M2c_write [LF],
             M2c_flush, C2m_read (''ok'' @ [LF]), Would_send ''-@'']
     \<and> ''5'' \<notin> set (led_changes (LED_status w) (lit_vector [2, 5, 6, 7, 10, 18]) [0..<24])
     \<and> m2c_text (trace w') = m2c_text (trace w)
          @ ''G '' @ topdir @ ''/L_00/V_00/raw/frame_00000.jpg'' @ [LF]
          @ ''G '' @ topdir @ ''/L_00/V_00/raw/frame_00001.jpg'' @ [LF]
     \<and> filter (\<lambda>c. c = ''5'') (issued (trace w'))
         = filter (\<lambda>c. c = ''5'') (issued (trace w)) @ [''5'']
     \<and> c2m_in w' = replies)
   \<and> capture_image_set (Some Serial) (Some M2C) (Some C2M) 1 1 2 (1 / 10)
       (world_positioned\<lparr>serial_in := replicate 17 ''0''\<rparr>)
     = (Inr True,
        world_positioned
        \<lparr>serial_in := [], c2m_in := [],
          dirs := [''muff_scans'', ''muff_scans/2018-09-04-1849-U'', ''muff_scans'',
                   ''muff_scans/2018-09-04-1849-U'', ''muff_scans/2018-09-04-1849-U/L_00'',
                   ''muff_scans/2018-09-04-1849-U/L_00/V_00'',
                   ''muff_scans/2018-09-04-1849-U/L_00/V_00/raw''],
          Z_curr := Some (1 / 10), LED_status := replicate 24 (Some 0),
          trace := [Serial_write ''-A'', Serial_write ''+C'', Serial_write ''-D'',
                    Serial_write ''+F'', Serial_write ''+H'', Serial_write ''-J'',
                    Serial_write ''+K'', Serial_write ''+S'',
                    M2c_write ''G muff_scans/2018-09-04-1849-U/L_00/V_00/raw/frame_00000.jpg'',
                    M2c_write [LF], M2c_flush, C2m_read (''ok'' @ [LF]), Serial_write ''-@'',
                    Serial_write ''5'',
                    Serial_write ''+C'', Serial_write ''+F'', Serial_write ''+G'',
                    Serial_write ''+H'', Serial_write ''+K'', Serial_write ''+S'',
                    M2c_write ''G muff_scans/2018-09-04-1849-U/L_00/V_00/raw/frame_00001.jpg'',
                    M2c_write [LF], M2c_flush, C2m_read (''ok'' @ [LF]), Serial_write ''-@'']\<rparr>)"
    (is "?sim \<and> ?live")
proof
  have "filter (\<lambda>c. c = ''5'') (led_changes (LED_status w) (lit_vector [2, 5, 6, 7, 10, 18]) [0..<24])
          = []"
    using step_not_in_led_changes by (auto simp: filter_empty_conv)
  then show ?sim
    unfolding capture_two_heights_state [OF assms]
    by (simp add: step_not_in_led_changes m2c_text_append issued_append)
  show ?live by code_simp
qed

theorem two_heights_session_witness:
  "\<exists>w'. capture_image_set None (Some M2C) (Some C2M) 1 1 2 (1 / 10) world_positioned
           = (Inr True, w')
     \<and> Z_curr world_positioned = Some 0 \<and> Z_curr w' = Some (1 / 10)
     \<and> m2c_text (trace w')
         = ''G muff_scans/2018-09-04-1849-U/L_00/V_00/raw/frame_00000.jpg'' @ [LF]
           @ ''G muff_scans/2018-09-04-1849-U/L_00/V_00/raw/frame_00001.jpg'' @ [LF]
     \<and> filter (\<lambda>c. c = ''5'') (issued (trace w')) = [''5'']
     \<and> c2m_in w' = []"
proof -
  have h: "Z_curr world_positioned = Some 0" "length (LED_status world_positioned) = 24"
    "m2c_open world_positioned"
    "c2m_in world_positioned = (''ok'' @ [LF]) # (''ok'' @ [LF]) # []"
    "''muff_scans/2018-09-04-1849-U'' = ''muff_scans/'' @ utc_stamp world_positioned"
    "''muff_scans/2018-09-04-1849-U'' \<notin> set (dirs world_positioned)"
    "''muff_scans/2018-09-04-1849-U'' @ ''/L_00/V_00/raw'' \<notin> set (dirs world_positioned)"
    "trace world_positioned = []"
    by code_simp+
  from two_heights_session [OF h(1-7)] h(1,8) show ?thesis
    by (auto simp: m2c_text_append)
qed

section \<open>Properties of the end of the session\<close>







end
